theory Spec2Isabelle
  imports Complex_Main "HOL-Library.Char_ord" "HOL-Library.List_Lexorder"
begin

section \<open>Python values used by the media extractors\<close>

text \<open>
  The module \<^verbatim>\<open>cvat/apps/engine/media_extractors.py\<close> is embedded function by function.
  Every \<^verbatim>\<open>raise\<close>, failed \<^verbatim>\<open>assert\<close> and exception of a built-in is a value of
  type \<open>error\<close>; a function that can raise returns \<open>error + 'a\<close> with \<open>Inl\<close> the error.
  Python integers are \<open>int\<close>; a byte string and a text string are both \<open>string\<close>.
\<close>

datatype error =
    Exception string | AssertionError | IndexError | KeyError | TypeError | ValueError
  | UnicodeDecodeError | AttributeError | ZeroDivisionError | FileExistsError | FileNotFoundError
  | OSError | StructError | OverflowError

datatype DimensionType = DIM_2D | DIM_3D

text \<open>
  Python 3 \<^verbatim>\<open>round(x)\<close> with one argument: the nearest integer, a tie going to the even
  neighbour. The argument is a float in the source; the model computes with the exact
  quotient (see \<open>py_round_stable\<close> below for why the float's rounding error is harmless
  where the module calls \<^verbatim>\<open>round\<close>).
\<close>

definition py_round :: "real \<Rightarrow> int" where
  "py_round x =
     (let f = \<lfloor>x\<rfloor>; d = x - of_int f
      in if d < 1 / 2 then f else if 1 / 2 < d then f + 1 else if even f then f else f + 1)"

text \<open>\<^verbatim>\<open>str(i)\<close> for an integer: decimal digits, a leading minus sign when negative.\<close>

fun str_nat :: "nat \<Rightarrow> string" where
  "str_nat n =
     (if n < 10 then [''0123456789'' ! n]
      else str_nat (n div 10) @ [''0123456789'' ! (n mod 10)])"

definition py_str :: "int \<Rightarrow> string" where
  "py_str i = (if i < 0 then CHR ''-'' # str_nat (nat (- i)) else str_nat (nat i))"

section \<open>Chunk writers that encode video\<close>

text \<open>
  A PyAV video frame: its size, its picture (opaque), presentation timestamp and time base
  (\<open>None\<close> is Python's \<^verbatim>\<open>None\<close>).
\<close>

record 'img VideoFrame =
  frame_width :: int
  frame_height :: int
  frame_image :: 'img
  frame_pts :: "int option"
  frame_time_base :: "rat option"

text \<open>
  The attributes of a chunk writer. \<^verbatim>\<open>IChunkWriter.__init__\<close> assigns the first two;
  an attribute that no constructor assigned is \<open>None\<close>.
\<close>

record ChunkWriter =
  image_quality :: int
  dimension_flag :: "DimensionType option"
  output_fps :: "int option"

definition IChunkWriter_init :: "int \<Rightarrow> DimensionType \<Rightarrow> ChunkWriter" where
  "IChunkWriter_init quality dimension =
     \<lparr>image_quality = quality, dimension_flag = Some dimension, output_fps = None\<rparr>"

text \<open>\<^verbatim>\<open>Mpeg4ChunkWriter.__init__(self, _)\<close>: \<^verbatim>\<open>super().__init__(17)\<close>, then the frame rate.\<close>

definition Mpeg4ChunkWriter_init :: "int \<Rightarrow> ChunkWriter" where
  "Mpeg4ChunkWriter_init _ = (IChunkWriter_init 17 DIM_2D)\<lparr>output_fps := Some 25\<rparr>"

text \<open>
  \<^verbatim>\<open>Mpeg4CompressedChunkWriter.__init__(self, quality)\<close> does not call the base
  constructor: it assigns the translated quality and the frame rate only.
\<close>

definition Mpeg4CompressedChunkWriter_init :: "int \<Rightarrow> ChunkWriter" where
  "Mpeg4CompressedChunkWriter_init quality =
     \<lparr>image_quality = py_round (real_of_int (51 * (100 - quality)) / 99),
      dimension_flag = None, output_fps = Some 25\<rparr>"

text \<open>
  The output container with its single video stream, as \<^verbatim>\<open>_create_av_container\<close> sets it
  up. The encoder itself is the library's: \<open>av_encoded\<close> lists the frames handed to
  \<^verbatim>\<open>stream.encode\<close>, in order, and \<open>av_flushed\<close>, \<open>av_closed\<close> record the final flush
  and \<^verbatim>\<open>close()\<close>.
\<close>

record 'img av_container =
  av_path :: string
  av_format :: string
  av_codec :: string
  av_rate :: int
  av_pix_fmt :: string
  av_width :: int
  av_height :: int
  av_options :: "(string \<times> string) list"
  av_encoded :: "'img VideoFrame list"
  av_flushed :: bool
  av_closed :: bool

definition create_av_container ::
  "string \<Rightarrow> int \<Rightarrow> int \<Rightarrow> int \<Rightarrow> (string \<times> string) list \<Rightarrow> string \<Rightarrow> 'img av_container" where
  "create_av_container path w h rate options f =
     (let h = (if h mod 2 \<noteq> 0 then h + 1 else h);
          w = (if w mod 2 \<noteq> 0 then w + 1 else w)
      in \<lparr>av_path = path, av_format = f, av_codec = ''libopenh264'', av_rate = rate,
          av_pix_fmt = ''yuv420p'', av_width = w, av_height = h, av_options = options,
          av_encoded = [], av_flushed = False, av_closed = False\<rparr>)"

fun encode_images ::
  "('img VideoFrame \<times> 'src \<times> 'idx) list \<Rightarrow> 'img av_container \<Rightarrow> 'img av_container" where
  "encode_images [] container = container\<lparr>av_flushed := True\<rparr>"
| "encode_images ((frame, _, _) # images) container =
     encode_images images
       (container\<lparr>av_encoded :=
          av_encoded container @ [frame\<lparr>frame_pts := None, frame_time_base := None\<rparr>]\<rparr>)"

definition encoder_options :: "int \<Rightarrow> (string \<times> string) list" where
  "encoder_options quality =
     [(''profile'', ''constrained_baseline''),
      (''qmin'', py_str quality),
      (''qmax'', py_str quality),
      (''rc_mode'', ''buffer'')]"

definition Mpeg4ChunkWriter_save_as_chunk ::
  "ChunkWriter \<Rightarrow> ('img VideoFrame \<times> 'src \<times> 'idx) list \<Rightarrow> string
     \<Rightarrow> error + ('img av_container \<times> (int \<times> int) list)" where
  "Mpeg4ChunkWriter_save_as_chunk self images chunk_path =
     (case images of
        [] \<Rightarrow> Inl (Exception ''no images to save'')
      | (first, _, _) # _ \<Rightarrow>
          (let input_w = frame_width first; input_h = frame_height first
           in case output_fps self of
                None \<Rightarrow> Inl AttributeError
              | Some rate \<Rightarrow>
                  (let output_container =
                         create_av_container chunk_path input_w input_h rate
                           (encoder_options (image_quality self)) ''mp4'';
                       output_container = encode_images images output_container
                   in Inr (output_container\<lparr>av_closed := True\<rparr>, [(input_w, input_h)]))))"

text \<open>
  The loop \<^verbatim>\<open>while input_h / downscale_factor >= 1080: downscale_factor *= 2\<close>.
  The division is Python's true division; a result of \<open>None\<close> would mean that the loop
  does not return.
\<close>

partial_function (option) downscale_loop :: "int \<Rightarrow> int \<Rightarrow> int option" where
  "downscale_loop input_h downscale_factor =
     (if 1080 \<le> real_of_int input_h / real_of_int downscale_factor
      then downscale_loop input_h (downscale_factor * 2)
      else Some downscale_factor)"

definition Mpeg4CompressedChunkWriter_save_as_chunk ::
  "ChunkWriter \<Rightarrow> ('img VideoFrame \<times> 'src \<times> 'idx) list \<Rightarrow> string
     \<Rightarrow> (error + ('img av_container \<times> (int \<times> int) list)) option" where
  "Mpeg4CompressedChunkWriter_save_as_chunk self images chunk_path =
     (case images of
        [] \<Rightarrow> Some (Inl (Exception ''no images to save''))
      | (first, _, _) # _ \<Rightarrow>
          (let input_w = frame_width first; input_h = frame_height first
           in case downscale_loop input_h 1 of
                None \<Rightarrow> None
              | Some downscale_factor \<Rightarrow>
                  (let output_h = input_h div downscale_factor;
                       output_w = input_w div downscale_factor
                   in case output_fps self of
                        None \<Rightarrow> Some (Inl AttributeError)
                      | Some rate \<Rightarrow>
                          (let output_container =
                                 create_av_container chunk_path output_w output_h rate
                                   (encoder_options (image_quality self)) ''mp4'';
                               output_container = encode_images images output_container
                           in Some (Inr (output_container\<lparr>av_closed := True\<rparr>,
                                         [(input_w, input_h)]))))))"

section \<open>Strings, dictionaries and files\<close>

text \<open>
  A text string is represented by its UTF-8 encoding, so \<^verbatim>\<open>bytes.decode("utf-8")\<close>
  is the identity where the bytes are well-formed UTF-8 and raises otherwise.
\<close>

definition byte_in :: "char \<Rightarrow> nat \<Rightarrow> nat \<Rightarrow> bool" where
  "byte_in c lo hi = (lo \<le> of_char c \<and> (of_char c :: nat) \<le> hi)"

fun utf8_valid :: "string \<Rightarrow> bool" where
  "utf8_valid [] = True"
| "utf8_valid (a # bs) =
     (if byte_in a 0x00 0x7F then utf8_valid bs
      else if byte_in a 0xC2 0xDF then
        (case bs of b # r \<Rightarrow> byte_in b 0x80 0xBF \<and> utf8_valid r | _ \<Rightarrow> False)
      else if byte_in a 0xE0 0xEF then
        (case bs of
           b # c # r \<Rightarrow>
             byte_in b (if a = CHR 0xE0 then 0xA0 else 0x80) (if a = CHR 0xED then 0x9F else 0xBF)
             \<and> byte_in c 0x80 0xBF \<and> utf8_valid r
         | _ \<Rightarrow> False)
      else if byte_in a 0xF0 0xF4 then
        (case bs of
           b # c # d # r \<Rightarrow>
             byte_in b (if a = CHR 0xF0 then 0x90 else 0x80) (if a = CHR 0xF4 then 0x8F else 0xBF)
             \<and> byte_in c 0x80 0xBF \<and> byte_in d 0x80 0xBF \<and> utf8_valid r
         | _ \<Rightarrow> False)
      else False)"

definition decode_utf8 :: "string \<Rightarrow> error + string" where
  "decode_utf8 b = (if utf8_valid b then Inr b else Inl UnicodeDecodeError)"

definition startswith :: "string \<Rightarrow> string \<Rightarrow> bool" where
  "startswith s p = (take (length p) s = p)"

definition endswith :: "string \<Rightarrow> string \<Rightarrow> bool" where
  "endswith s p = (length p \<le> length s \<and> drop (length s - length p) s = p)"

text \<open>\<^verbatim>\<open>sub in s\<close> for strings.\<close>

fun contains :: "string \<Rightarrow> string \<Rightarrow> bool" where
  "contains [] sub = (sub = [])"
| "contains (c # cs) sub = (startswith (c # cs) sub \<or> contains cs sub)"

text \<open>
  \<^verbatim>\<open>s.split(c, maxsplit=1)\<close> and \<^verbatim>\<open>s.rsplit(c, maxsplit=1)\<close> for a one-character
  separator, unpacked into two names: \<open>None\<close> is the \<^verbatim>\<open>ValueError\<close> of unpacking a
  one-element list.
\<close>

definition split_once :: "char \<Rightarrow> string \<Rightarrow> (string \<times> string) option" where
  "split_once c s =
     (if c \<in> set s then Some (takeWhile (\<lambda>x. x \<noteq> c) s, tl (dropWhile (\<lambda>x. x \<noteq> c) s))
      else None)"

definition rsplit_once :: "char \<Rightarrow> string \<Rightarrow> (string \<times> string) option" where
  "rsplit_once c s =
     (if c \<in> set s
      then Some (rev (tl (dropWhile (\<lambda>x. x \<noteq> c) (rev s))), rev (takeWhile (\<lambda>x. x \<noteq> c) (rev s)))
      else None)"

text \<open>
  \<^verbatim>\<open>s.split(sep)\<close> for a non-empty separator: the pieces between the occurrences of
  \<open>sep\<close> found from the left; \<open>cur\<close> is the piece being read, reversed.
\<close>

function split_pieces :: "string \<Rightarrow> string \<Rightarrow> string \<Rightarrow> string list" where
  "split_pieces sep cur [] = [rev cur]"
| "split_pieces sep cur (c # cs) =
     (if sep \<noteq> [] \<and> startswith (c # cs) sep
      then rev cur # split_pieces sep [] (drop (length sep) (c # cs))
      else split_pieces sep (c # cur) cs)"
  by pat_completeness auto
termination
  by (relation "measure (\<lambda>(sep, cur, s). length s)") auto

definition py_split :: "string \<Rightarrow> string \<Rightarrow> error + string list" where
  "py_split s sep = (if sep = [] then Inl ValueError else Inr (split_pieces sep [] s))"

text \<open>\<^verbatim>\<open>s.replace(old, new)\<close> for a non-empty \<open>old\<close>.\<close>

function replace_all :: "string \<Rightarrow> string \<Rightarrow> string \<Rightarrow> string" where
  "replace_all old new [] = []"
| "replace_all old new (c # cs) =
     (if old \<noteq> [] \<and> startswith (c # cs) old
      then new @ replace_all old new (drop (length old) (c # cs))
      else c # replace_all old new cs)"
  by pat_completeness auto
termination
  by (relation "measure (\<lambda>(old, new, s). length s)") auto

text \<open>
  \<^verbatim>\<open>str.strip()\<close>: the characters Python counts as whitespace, in UTF-8.
\<close>

definition py_whitespace :: "string list" where
  "py_whitespace =
     map (\<lambda>c. [c]) [CHR 0x09, CHR 0x0A, CHR 0x0B, CHR 0x0C, CHR 0x0D,
                     CHR 0x1C, CHR 0x1D, CHR 0x1E, CHR 0x1F, CHR 0x20]
     @ [[CHR 0xC2, CHR 0x85], [CHR 0xC2, CHR 0xA0], [CHR 0xE1, CHR 0x9A, CHR 0x80]]
     @ map (\<lambda>c. [CHR 0xE2, CHR 0x80, c])
         [CHR 0x80, CHR 0x81, CHR 0x82, CHR 0x83, CHR 0x84, CHR 0x85, CHR 0x86, CHR 0x87,
          CHR 0x88, CHR 0x89, CHR 0x8A, CHR 0xA8, CHR 0xA9, CHR 0xAF]
     @ [[CHR 0xE2, CHR 0x81, CHR 0x9F], [CHR 0xE3, CHR 0x80, CHR 0x80]]"

function lstrip :: "string \<Rightarrow> string" where
  "lstrip s =
     (case filter (\<lambda>w. startswith s w \<and> s \<noteq> []) py_whitespace of
        [] \<Rightarrow> s
      | w # _ \<Rightarrow> lstrip (drop (max 1 (length w)) s))"
  by pat_completeness auto
termination
  by (relation "measure length") (auto simp: filter_eq_Cons_iff)

function rstrip :: "string \<Rightarrow> string" where
  "rstrip s =
     (case filter (\<lambda>w. endswith s w \<and> s \<noteq> []) py_whitespace of
        [] \<Rightarrow> s
      | w # _ \<Rightarrow> rstrip (take (length s - max 1 (length w)) s))"
  by pat_completeness auto
termination
  by (relation "measure length") (auto simp: filter_eq_Cons_iff)

definition py_strip :: "string \<Rightarrow> string" where
  "py_strip s = rstrip (lstrip s)"

text \<open>
  A Python \<^verbatim>\<open>dict\<close>, with its insertion order: assigning to a key that is present
  keeps the key's place.
\<close>

type_synonym ('k, 'v) dict = "('k \<times> 'v) list"

definition dict_set :: "('k, 'v) dict \<Rightarrow> 'k \<Rightarrow> 'v \<Rightarrow> ('k, 'v) dict" where
  "dict_set d k v =
     (if k \<in> fst ` set d then map (\<lambda>(k', v'). if k' = k then (k', v) else (k', v')) d
      else d @ [(k, v)])"

definition dict_get :: "('k, 'v) dict \<Rightarrow> 'k \<Rightarrow> 'v option" where
  "dict_get d k = map_of d k"

text \<open>
  \<^verbatim>\<open>os.path.splitext(p)\<close> on a POSIX path: the extension starts at the last dot of the
  last component, unless only dots precede it there.
\<close>

definition splitext :: "string \<Rightarrow> string \<times> string" where
  "splitext p =
     (let base = rev (takeWhile (\<lambda>x. x \<noteq> CHR ''/'') (rev p));
          ext = rev (takeWhile (\<lambda>x. x \<noteq> CHR ''.'') (rev base));
          stem = take (length base - length ext - 1) base
      in if CHR ''.'' \<in> set base \<and> (\<exists>c \<in> set stem. c \<noteq> CHR ''.'')
         then (take (length p - length ext - 1) p, CHR ''.'' # ext)
         else (p, []))"

text \<open>\<^verbatim>\<open>'{:06d}'.format(idx)\<close> for the non-negative counter of \<^verbatim>\<open>enumerate\<close>.\<close>

definition format_06d :: "nat \<Rightarrow> string" where
  "format_06d idx = replicate (6 - length (str_nat idx)) CHR ''0'' @ str_nat idx"

text \<open>
  Iterating a binary file or a \<^verbatim>\<open>BytesIO\<close> gives its lines, each with its newline.
  A line is a byte string; \<open>Text\<close> is a line of a stream opened in text mode, a
  \<^verbatim>\<open>str\<close>, which has no \<^verbatim>\<open>decode\<close> method.
\<close>

datatype line = Bytes string | Text string

fun readlines_from :: "string \<Rightarrow> string \<Rightarrow> string list" where
  "readlines_from cur [] = (if cur = [] then [] else [rev cur])"
| "readlines_from cur (c # cs) =
     (if c = CHR 0x0A then rev (c # cur) # readlines_from [] cs
      else readlines_from (c # cur) cs)"

definition readlines :: "string \<Rightarrow> line list" where
  "readlines content = map Bytes (readlines_from [] content)"

section \<open>Point-cloud header\<close>

datatype pcd_properties = PcdNone | PcdTrue | PcdProps "(string, string) dict"

definition pcd_version :: "string list" where
  "pcd_version = [''0.7'', ''0.6'', ''0.5'', ''0.4'', ''0.3'', ''0.2'', ''0.1'',
                  ''.7'', ''.6'', ''.5'', ''.4'', ''.3'', ''.2'', ''.1'']"

text \<open>
  The \<^verbatim>\<open>for line in fp\<close> loop of \<^verbatim>\<open>get_pcd_properties\<close>, with the exception each
  statement can raise.
\<close>

fun pcd_read_lines :: "line list \<Rightarrow> (string, string) dict \<Rightarrow> error + (string, string) dict" where
  "pcd_read_lines [] kv = Inr kv"
| "pcd_read_lines (Text _ # fp) kv = Inl AttributeError"
| "pcd_read_lines (Bytes b # fp) kv =
     (case decode_utf8 b of
        Inl e \<Rightarrow> Inl e
      | Inr line \<Rightarrow>
          if startswith line ''#'' then pcd_read_lines fp kv
          else (case split_once CHR '' '' line of
                  None \<Rightarrow> Inl ValueError
                | Some (k, v) \<Rightarrow>
                    (let kv = dict_set kv k (py_strip v)
                     in if contains line ''DATA'' then Inr kv else pcd_read_lines fp kv)))"

definition get_pcd_properties :: "line list \<Rightarrow> bool \<Rightarrow> error + pcd_properties" where
  "get_pcd_properties fp verify_version =
     (case pcd_read_lines fp [] of
        Inl e \<Rightarrow> (if e = AttributeError then Inr PcdNone else Inl e)
      | Inr kv \<Rightarrow>
          if verify_version then
            (case dict_get kv ''VERSION'' of
               Some v \<Rightarrow> if v \<in> set pcd_version then Inr PcdTrue else Inr PcdNone
             | None \<Rightarrow> Inr PcdNone)
          else Inr (PcdProps kv))"

section \<open>Chunk writers that write archives\<close>

text \<open>
  What a reader hands to a writer as an image: an in-memory buffer, a file name, or a
  decoded video frame. The file system is a map from the names of the files to their
  contents, and a zip archive is the list of its members.
\<close>

datatype 'img media = BytesIO string | FilePath string | Frame "'img VideoFrame"

type_synonym files = "string \<Rightarrow> string option"

type_synonym zip_archive = "(string \<times> string) list"

fun zip_store ::
  "files \<Rightarrow> ('img media \<times> string \<times> 'idx) list \<Rightarrow> nat \<Rightarrow> zip_archive \<Rightarrow> error + zip_archive" where
  "zip_store fs [] idx zip_chunk = Inr zip_chunk"
| "zip_store fs ((img, path, _) # images) idx zip_chunk =
     (let arcname = format_06d idx @ snd (splitext path)
      in case img of
           BytesIO b \<Rightarrow> zip_store fs images (idx + 1) (zip_chunk @ [(arcname, b)])
         | FilePath f \<Rightarrow>
             (case fs f of
                None \<Rightarrow> Inl FileNotFoundError
              | Some content \<Rightarrow> zip_store fs images (idx + 1) (zip_chunk @ [(arcname, content)]))
         | Frame _ \<Rightarrow> Inl TypeError)"

text \<open>
  \<^verbatim>\<open>ZipChunkWriter.save_as_chunk\<close>. \<^verbatim>\<open>zipfile.ZipFile(chunk_path, 'x')\<close> creates the
  archive and fails when the path exists.
\<close>

definition ZipChunkWriter_save_as_chunk ::
  "files \<Rightarrow> ChunkWriter \<Rightarrow> ('img media \<times> string \<times> 'idx) list \<Rightarrow> string
     \<Rightarrow> error + (zip_archive \<times> (int \<times> int) list)" where
  "ZipChunkWriter_save_as_chunk fs self images chunk_path =
     (if fs chunk_path \<noteq> None then Inl FileExistsError
      else case zip_store fs images 0 [] of
             Inl e \<Rightarrow> Inl e
           | Inr zip_chunk \<Rightarrow> Inr (zip_chunk, []))"

text \<open>
  The imaging library (Pillow, and numpy for the rescaling of 32-bit pixels) is a
  parameter: opening an image (\<^verbatim>\<open>to_image()\<close> of a frame, \<^verbatim>\<open>Image.open\<close> otherwise),
  its mode, the rescaling to 8 bits, the conversion to RGB, the JPEG encoder and the size.
\<close>

record ('img, 'pil) imaging =
  pil_open :: "'img media \<Rightarrow> error + 'pil"
  pil_mode :: "'pil \<Rightarrow> string"
  pil_autoscale :: "'pil \<Rightarrow> 'pil"
  pil_convert_rgb :: "'pil \<Rightarrow> 'pil"
  pil_save_jpeg :: "'pil \<Rightarrow> int \<Rightarrow> string"
  pil_size :: "'pil \<Rightarrow> int \<times> int"

definition compress_image ::
  "('img, 'pil) imaging \<Rightarrow> 'img media \<Rightarrow> int \<Rightarrow> error + (int \<times> int \<times> string)" where
  "compress_image lib image_path quality =
     (case pil_open lib image_path of
        Inl e \<Rightarrow> Inl e
      | Inr img \<Rightarrow>
          (let img = (if pil_mode lib img = ''I'' then pil_autoscale lib img else img);
               converted_image = pil_convert_rgb lib img;
               buf = pil_save_jpeg lib converted_image quality;
               (width, height) = pil_size lib converted_image
           in Inr (width, height, buf)))"

text \<open>
  The 3D branch of \<^verbatim>\<open>ZipCompressedChunkWriter.save_as_chunk\<close>: the header of the point
  cloud gives the size, the bytes are stored unchanged. \<open>py_int\<close> is Python's
  \<^verbatim>\<open>int\<close> on a string (\<open>None\<close> is its \<^verbatim>\<open>ValueError\<close>).
\<close>

definition pcd_property_int ::
  "(string \<Rightarrow> int option) \<Rightarrow> pcd_properties \<Rightarrow> string \<Rightarrow> error + int" where
  "pcd_property_int py_int properties key =
     (case properties of
        PcdProps kv \<Rightarrow>
          (case dict_get kv key of
             None \<Rightarrow> Inl KeyError
           | Some v \<Rightarrow> (case py_int v of None \<Rightarrow> Inl ValueError | Some i \<Rightarrow> Inr i))
      | _ \<Rightarrow> Inl TypeError)"

definition pcd_image ::
  "(string \<Rightarrow> int option) \<Rightarrow> files \<Rightarrow> 'img media \<Rightarrow> error + (int \<times> int \<times> string)" where
  "pcd_image py_int fs img =
     (case (case img of
              FilePath f \<Rightarrow> (case fs f of None \<Rightarrow> Inl FileNotFoundError | Some c \<Rightarrow> Inr c)
            | BytesIO b \<Rightarrow> Inr b
            | Frame _ \<Rightarrow> Inl TypeError) of
        Inl e \<Rightarrow> Inl e
      | Inr image_buf \<Rightarrow>
          (case get_pcd_properties (readlines image_buf) False of
             Inl e \<Rightarrow> Inl e
           | Inr properties \<Rightarrow>
               (case pcd_property_int py_int properties ''WIDTH'' of
                  Inl e \<Rightarrow> Inl e
                | Inr w \<Rightarrow>
                    (case pcd_property_int py_int properties ''HEIGHT'' of
                       Inl e \<Rightarrow> Inl e
                     | Inr h \<Rightarrow> Inr (w, h, image_buf)))))"

fun zip_compress ::
  "('img, 'pil) imaging \<Rightarrow> (string \<Rightarrow> int option) \<Rightarrow> files \<Rightarrow> ChunkWriter
     \<Rightarrow> ('img media \<times> 'path \<times> 'idx) list \<Rightarrow> nat \<Rightarrow> zip_archive \<Rightarrow> (int \<times> int) list
     \<Rightarrow> error + (zip_archive \<times> (int \<times> int) list)" where
  "zip_compress lib py_int fs self [] idx zip_chunk image_sizes = Inr (zip_chunk, image_sizes)"
| "zip_compress lib py_int fs self ((img, _, _) # images) idx zip_chunk image_sizes =
     (case dimension_flag self of
        None \<Rightarrow> Inl AttributeError
      | Some dimension \<Rightarrow>
          (case (if dimension = DIM_2D
                 then (case compress_image lib img (image_quality self) of
                         Inl e \<Rightarrow> Inl e | Inr (w, h, image_buf) \<Rightarrow> Inr (w, h, image_buf, ''jpeg''))
                 else (case pcd_image py_int fs img of
                         Inl e \<Rightarrow> Inl e | Inr (w, h, image_buf) \<Rightarrow> Inr (w, h, image_buf, ''pcd''))) of
             Inl e \<Rightarrow> Inl e
           | Inr (w, h, image_buf, extension) \<Rightarrow>
               zip_compress lib py_int fs self images (idx + 1)
                 (zip_chunk @ [(format_06d idx @ ''.'' @ extension, image_buf)])
                 (image_sizes @ [(w, h)])))"

definition ZipCompressedChunkWriter_save_as_chunk ::
  "('img, 'pil) imaging \<Rightarrow> (string \<Rightarrow> int option) \<Rightarrow> files \<Rightarrow> ChunkWriter
     \<Rightarrow> ('img media \<times> 'path \<times> 'idx) list \<Rightarrow> string
     \<Rightarrow> error + (zip_archive \<times> (int \<times> int) list)" where
  "ZipCompressedChunkWriter_save_as_chunk lib py_int fs self images chunk_path =
     (if fs chunk_path \<noteq> None then Inl FileExistsError
      else zip_compress lib py_int fs self images 0 [] [])"

section \<open>Media readers\<close>

text \<open>
  The attributes \<^verbatim>\<open>IMediaReader.__init__\<close> assigns. \<^verbatim>\<open>sorted\<close> orders the paths
  (strings compare character by character, a proper prefix being smaller);
  \<open>reader_stop\<close> is \<open>None\<close> where the source keeps \<^verbatim>\<open>None\<close>.
\<close>

record 'a IMediaReader =
  reader_source_path :: "'a list"
  reader_step :: int
  reader_start :: int
  reader_stop :: "int option"

definition IMediaReader_init ::
  "('a :: linorder) list \<Rightarrow> int \<Rightarrow> int \<Rightarrow> int option \<Rightarrow> 'a IMediaReader" where
  "IMediaReader_init source_path step start stop =
     \<lparr>reader_source_path = sort source_path, reader_step = step,
      reader_start = start, reader_stop = stop\<rparr>"

text \<open>
  \<^verbatim>\<open>range(start, stop, step)\<close> as the list of its members; a zero step is a
  \<^verbatim>\<open>ValueError\<close>.
\<close>

function range_up :: "int \<Rightarrow> int \<Rightarrow> int \<Rightarrow> int list" where
  "range_up i stop step = (if 0 < step \<and> i < stop then i # range_up (i + step) stop step else [])"
  by pat_completeness auto
termination
  by (relation "measure (\<lambda>(i, stop, step). nat (stop - i))") auto

function range_down :: "int \<Rightarrow> int \<Rightarrow> int \<Rightarrow> int list" where
  "range_down i stop step =
     (if step < 0 \<and> stop < i then i # range_down (i + step) stop step else [])"
  by pat_completeness auto
termination
  by (relation "measure (\<lambda>(i, stop, step). nat (i - stop))") auto

declare range_up.simps [simp del] range_down.simps [simp del]

definition py_range :: "int \<Rightarrow> int \<Rightarrow> int \<Rightarrow> error + int list" where
  "py_range start stop step =
     (if step = 0 then Inl ValueError
      else if 0 < step then Inr (range_up start stop step)
      else Inr (range_down start stop step))"

definition frame_range :: "'a IMediaReader \<Rightarrow> error + int list" where
  "frame_range self =
     (case reader_stop self of
        None \<Rightarrow> Inl TypeError
      | Some stop \<Rightarrow> py_range (reader_start self) stop (reader_step self))"

text \<open>
  \<^verbatim>\<open>sys.maxsize\<close> of a 64-bit build: the largest length a container can report, and
  the largest number of elements a list can hold.
\<close>

definition sys_maxsize :: int where
  "sys_maxsize = 9223372036854775807"

text \<open>
  \<^verbatim>\<open>IMediaReader.__len__\<close>: the number of members of \<^verbatim>\<open>frame_range\<close>; \<^verbatim>\<open>len\<close> of a
  range with more than \<^verbatim>\<open>sys.maxsize\<close> members raises \<^verbatim>\<open>OverflowError\<close>.
\<close>

definition IMediaReader_len :: "'a IMediaReader \<Rightarrow> error + int" where
  "IMediaReader_len self =
     (case frame_range self of
        Inl e \<Rightarrow> Inl e
      | Inr r \<Rightarrow> if int (length r) \<le> sys_maxsize then Inr (int (length r))
                else Inl OverflowError)"

definition ImageListReader_init ::
  "('a :: linorder) list \<Rightarrow> int \<Rightarrow> int \<Rightarrow> int option \<Rightarrow> error + 'a IMediaReader" where
  "ImageListReader_init source_path step start stop =
     (if source_path = [] then Inl (Exception ''No image found'')
      else
        (let stop = (case stop of
                       None \<Rightarrow> int (length source_path)
                     | Some stop \<Rightarrow> min (int (length source_path)) (stop + 1));
             step = max step 1
         in if \<not> start < stop then Inl AssertionError
            else Inr (IMediaReader_init source_path step start (Some stop))))"

text \<open>
  \<^verbatim>\<open>xs[i]\<close>: a negative index counts from the end, an index out of range raises.
\<close>

definition py_index :: "'a list \<Rightarrow> int \<Rightarrow> error + 'a" where
  "py_index xs i =
     (if 0 \<le> i \<and> i < int (length xs) then Inr (xs ! nat i)
      else if i < 0 \<and> - int (length xs) \<le> i then Inr (xs ! nat (int (length xs) + i))
      else Inl IndexError)"

definition get_path :: "'a IMediaReader \<Rightarrow> int \<Rightarrow> error + 'a" where
  "get_path self i = py_index (reader_source_path self) i"

definition get_image :: "'a IMediaReader \<Rightarrow> int \<Rightarrow> error + 'a" where
  "get_image self i = py_index (reader_source_path self) i"

text \<open>
  A generator is the list of what it yields, with the exception that ended it, if one did.
\<close>

fun ImageListReader_yield ::
  "'a IMediaReader \<Rightarrow> int list \<Rightarrow> ('a \<times> 'a \<times> int) list \<times> error option" where
  "ImageListReader_yield self [] = ([], None)"
| "ImageListReader_yield self (i # r) =
     (case get_image self i of
        Inl e \<Rightarrow> ([], Some e)
      | Inr img \<Rightarrow>
          (case get_path self i of
             Inl e \<Rightarrow> ([], Some e)
           | Inr path \<Rightarrow>
               (let (items, e) = ImageListReader_yield self r in ((img, path, i) # items, e))))"

definition ImageListReader_iter ::
  "'a IMediaReader \<Rightarrow> ('a \<times> 'a \<times> int) list \<times> error option" where
  "ImageListReader_iter self =
     (case reader_stop self of
        None \<Rightarrow> ([], Some TypeError)
      | Some stop \<Rightarrow>
          (case py_range (reader_start self) stop (reader_step self) of
             Inl e \<Rightarrow> ([], Some e)
           | Inr r \<Rightarrow> ImageListReader_yield self r))"

subsection \<open>Video\<close>

definition VideoReader_init ::
  "('a :: linorder) list \<Rightarrow> int \<Rightarrow> int \<Rightarrow> int option \<Rightarrow> 'a IMediaReader" where
  "VideoReader_init source_path step start stop =
     IMediaReader_init source_path step start
       (case stop of Some stop \<Rightarrow> Some (stop + 1) | None \<Rightarrow> None)"

text \<open>\<^verbatim>\<open>%\<close> by zero raises; otherwise Python's \<^verbatim>\<open>%\<close> on integers is \<open>mod\<close>.\<close>

definition has_frame :: "'a IMediaReader \<Rightarrow> int \<Rightarrow> error + bool" where
  "has_frame self i =
     (if reader_start self \<le> i then
        (if reader_step self = 0 then Inl ZeroDivisionError
         else if (i - reader_start self) mod reader_step self = 0 then
           (case reader_stop self of
              None \<Rightarrow> Inr True
            | Some stop \<Rightarrow> if i < stop then Inr True else Inr False)
         else Inr False)
      else Inr False)"

text \<open>
  An opened container: the packets \<^verbatim>\<open>demux()\<close> gives, each with its stream and the
  frames \<^verbatim>\<open>decode()\<close> gives for it, and the container's streams.
\<close>

record stream =
  stream_type :: string
  stream_metadata :: "(string, string) dict"

record 'img packet =
  packet_stream :: stream
  packet_decode :: "'img VideoFrame list"

record 'img input_container =
  container_demux :: "'img packet list"
  container_streams :: "stream list"

definition streams_video :: "'img input_container \<Rightarrow> stream list" where
  "streams_video container = filter (\<lambda>s. stream_type s = ''video'') (container_streams container)"

text \<open>
  The library calls of the rotation: \<^verbatim>\<open>to_ndarray(format='bgr24')\<close>,
  \<^verbatim>\<open>av.VideoFrame().from_ndarray(_, format='bgr24')\<close>, \<^verbatim>\<open>int\<close> on a string, and
  \<^verbatim>\<open>rotate_image\<close> of \<^verbatim>\<open>cvat.apps.engine.utils\<close>, which is not part of the sources
  at hand and is a parameter as well.
\<close>

record ('img, 'arr) video_lib =
  to_ndarray :: "'img VideoFrame \<Rightarrow> 'arr"
  from_ndarray :: "'arr \<Rightarrow> 'img VideoFrame"
  rotate_image :: "'arr \<Rightarrow> int \<Rightarrow> 'arr"
  parse_int :: "string \<Rightarrow> int option"

text \<open>
  The angle of the corrective rotation for a frame of a packet: \<open>None\<close> when the packet's
  stream declares no rotation (\<^verbatim>\<open>metadata.get('rotate')\<close> is \<^verbatim>\<open>None\<close> or empty).
\<close>

definition rotation_angle ::
  "('img, 'arr) video_lib \<Rightarrow> 'img input_container \<Rightarrow> 'img packet \<Rightarrow> error + int option" where
  "rotation_angle lib container packet =
     (case dict_get (stream_metadata (packet_stream packet)) ''rotate'' of
        None \<Rightarrow> Inr None
      | Some declared \<Rightarrow>
          if declared = [] then Inr None
          else (case streams_video container of
                  [] \<Rightarrow> Inl IndexError
                | video0 # _ \<Rightarrow>
                    (case dict_get (stream_metadata video0) ''rotate'' of
                       None \<Rightarrow> Inl TypeError
                     | Some declared0 \<Rightarrow>
                         (case parse_int lib declared0 of
                            None \<Rightarrow> Inl ValueError
                          | Some r \<Rightarrow> Inr (Some (360 - r))))))"

definition rotated ::
  "('img, 'arr) video_lib \<Rightarrow> int option \<Rightarrow> 'img VideoFrame \<Rightarrow> 'img VideoFrame" where
  "rotated lib angle old_image =
     (case angle of
        None \<Rightarrow> old_image
      | Some a \<Rightarrow>
          (from_ndarray lib (rotate_image lib (to_ndarray lib old_image) a))
            \<lparr>frame_pts := frame_pts old_image\<rparr>)"

text \<open>The body of the inner loop of \<^verbatim>\<open>_decode\<close> after \<^verbatim>\<open>frame_num += 1\<close>.\<close>

definition decode_frame ::
  "('img, 'arr) video_lib \<Rightarrow> 'a IMediaReader \<Rightarrow> 'img input_container \<Rightarrow> 'img packet
     \<Rightarrow> 'img VideoFrame \<Rightarrow> int \<Rightarrow> error + ('img VideoFrame \<times> 'a \<times> int option) option" where
  "decode_frame lib self container packet img frame_num =
     (case has_frame self (frame_num - 1) of
        Inl e \<Rightarrow> Inl e
      | Inr False \<Rightarrow> Inr None
      | Inr True \<Rightarrow>
          (case rotation_angle lib container packet of
             Inl e \<Rightarrow> Inl e
           | Inr angle \<Rightarrow>
               (let img = rotated lib angle img
                in case reader_source_path self of
                     [] \<Rightarrow> Inl IndexError
                   | path # _ \<Rightarrow> Inr (Some (img, path, frame_pts img)))))"

fun decode_images ::
  "('img, 'arr) video_lib \<Rightarrow> 'a IMediaReader \<Rightarrow> 'img input_container \<Rightarrow> 'img packet
     \<Rightarrow> 'img VideoFrame list \<Rightarrow> int
     \<Rightarrow> ('img VideoFrame \<times> 'a \<times> int option) list \<times> (error + int)" where
  "decode_images lib self container packet [] frame_num = ([], Inr frame_num)"
| "decode_images lib self container packet (img # images) frame_num =
     (let frame_num = frame_num + 1
      in case decode_frame lib self container packet img frame_num of
           Inl e \<Rightarrow> ([], Inl e)
         | Inr y \<Rightarrow>
             (let (items, r) = decode_images lib self container packet images frame_num
              in ((case y of None \<Rightarrow> [] | Some item \<Rightarrow> [item]) @ items, r)))"

fun decode_packets ::
  "('img, 'arr) video_lib \<Rightarrow> 'a IMediaReader \<Rightarrow> 'img input_container \<Rightarrow> 'img packet list
     \<Rightarrow> int \<Rightarrow> ('img VideoFrame \<times> 'a \<times> int option) list \<times> error option" where
  "decode_packets lib self container [] frame_num = ([], None)"
| "decode_packets lib self container (packet # packets) frame_num =
     (if stream_type (packet_stream packet) = ''video'' then
        (case decode_images lib self container packet (packet_decode packet) frame_num of
           (items, Inl e) \<Rightarrow> (items, Some e)
         | (items, Inr frame_num) \<Rightarrow>
             (let (more, e) = decode_packets lib self container packets frame_num
              in (items @ more, e)))
      else decode_packets lib self container packets frame_num)"

text \<open>
  The frames that the two loops of \<^verbatim>\<open>_decode\<close> visit, in order, each with its packet:
  \<^verbatim>\<open>frame_num - 1\<close> is the position of a frame in this list.
\<close>

definition video_frames :: "'img input_container \<Rightarrow> ('img packet \<times> 'img VideoFrame) list" where
  "video_frames container =
     concat (map (\<lambda>packet. map (Pair packet) (packet_decode packet))
               (filter (\<lambda>packet. stream_type (packet_stream packet) = ''video'')
                  (container_demux container)))"

definition VideoReader_decode ::
  "('img, 'arr) video_lib \<Rightarrow> 'a IMediaReader \<Rightarrow> 'img input_container
     \<Rightarrow> ('img VideoFrame \<times> 'a \<times> int option) list \<times> error option" where
  "VideoReader_decode lib self container =
     decode_packets lib self container (container_demux container) 0"

text \<open>
  \<^verbatim>\<open>VideoReader.__iter__\<close>; \<open>container\<close> is what \<^verbatim>\<open>av.open\<close> gives for the first
  source path.
\<close>

definition VideoReader_iter ::
  "('img, 'arr) video_lib \<Rightarrow> 'a IMediaReader \<Rightarrow> 'img input_container
     \<Rightarrow> ('img VideoFrame \<times> 'a \<times> int option) list \<times> error option" where
  "VideoReader_iter lib self container =
     (if reader_source_path self = [] then ([], Some IndexError)
      else if streams_video container = [] then ([], Some IndexError)
      else VideoReader_decode lib self container)"

section \<open>Dimension validation\<close>

text \<open>\<^verbatim>\<open>os.path.split\<close> and \<^verbatim>\<open>os.path.join\<close> (of two paths) on POSIX paths.\<close>

definition os_path_split :: "string \<Rightarrow> string \<times> string" where
  "os_path_split p =
     (let tail = rev (takeWhile (\<lambda>x. x \<noteq> CHR ''/'') (rev p));
          head = take (length p - length tail) p
      in (if head \<noteq> [] \<and> (\<exists>c \<in> set head. c \<noteq> CHR ''/'')
          then rev (dropWhile (\<lambda>x. x = CHR ''/'') (rev head)) else head,
          tail))"

definition os_path_join :: "string \<Rightarrow> string \<Rightarrow> string" where
  "os_path_join a b =
     (if startswith b ''/'' then b
      else if a = [] \<or> endswith a ''/'' then a @ b
      else a @ ''/'' @ b)"

text \<open>\<^verbatim>\<open>s.split(sep)[0]\<close> and \<^verbatim>\<open>s.split(sep)[-1]\<close> for a separator that is not empty.\<close>

definition split_first :: "string \<Rightarrow> string \<Rightarrow> string" where
  "split_first s sep = hd (split_pieces sep [] s)"

definition split_last :: "string \<Rightarrow> string \<Rightarrow> string" where
  "split_last s sep = last (split_pieces sep [] s)"

text \<open>
  What a run sees of the operating system is a parameter. \<open>'w\<close> is the state of the file
  system; it changes when a converted point cloud is written and its source removed.
  \<open>re_search_image\<close> is \<^verbatim>\<open>re.search(r'image_\d.*', path, re.IGNORECASE)\<close>, giving the
  \<^verbatim>\<open>group()\<close> of the match.
\<close>

record 'w os_env =
  os_walk :: "'w \<Rightarrow> string \<Rightarrow> (string \<times> string list \<times> string list) list"
  os_listdir :: "'w \<Rightarrow> string \<Rightarrow> error + string list"
  os_path_isdir :: "'w \<Rightarrow> string \<Rightarrow> bool"
  os_path_isfile :: "'w \<Rightarrow> string \<Rightarrow> bool"
  os_path_abspath :: "string \<Rightarrow> string"
  read_file :: "'w \<Rightarrow> string \<Rightarrow> error + string"
  write_point_cloud :: "'w \<Rightarrow> string \<Rightarrow> string \<Rightarrow> error + 'w"
  os_remove :: "'w \<Rightarrow> string \<Rightarrow> error + 'w"
  re_search_image :: "string \<Rightarrow> string option"

record ValidateDimension =
  dimension :: DimensionType
  path :: "string option"
  related_files :: "(string, string list) dict"
  image_files :: "(string, string) dict"
  converted_files :: "string list"

definition ValidateDimension_init :: "string option \<Rightarrow> ValidateDimension" where
  "ValidateDimension_init p =
     \<lparr>dimension = DIM_2D, path = p, related_files = [], image_files = [],
      converted_files = []\<rparr>"

definition set_path :: "ValidateDimension \<Rightarrow> string option \<Rightarrow> ValidateDimension" where
  "set_path self p = self\<lparr>path := p\<rparr>"

text \<open>
  \<^verbatim>\<open>convert_bin_to_pcd\<close>: the file is read in records of four 4-byte floats
  (\<^verbatim>\<open>struct.unpack\<close> refuses a shorter last record), the points are written to the
  new name, and the source is removed.
\<close>

definition convert_bin_to_pcd ::
  "'w os_env \<Rightarrow> 'w \<Rightarrow> string \<Rightarrow> bool \<Rightarrow> error + (string \<times> 'w)" where
  "convert_bin_to_pcd env w p delete_source =
     (case read_file env w p of
        Inl e \<Rightarrow> Inl e
      | Inr content \<Rightarrow>
          if length content mod 16 \<noteq> 0 then Inl StructError
          else
            (let pcd_filename = replace_all ''.bin'' ''.pcd'' p
             in case write_point_cloud env w pcd_filename content of
                  Inl e \<Rightarrow> Inl e
                | Inr w \<Rightarrow>
                    if delete_source
                    then (case os_remove env w p of
                            Inl e \<Rightarrow> Inl e | Inr w \<Rightarrow> Inr (pcd_filename, w))
                    else Inr (pcd_filename, w)))"

definition bin_operation ::
  "'w os_env \<Rightarrow> ValidateDimension \<times> 'w \<Rightarrow> string \<Rightarrow> string
     \<Rightarrow> error + (ValidateDimension \<times> 'w \<times> string)" where
  "bin_operation env sw file_path actual_path =
     (case sw of (self, w) \<Rightarrow>
        (case convert_bin_to_pcd env w file_path True of
           Inl e \<Rightarrow> Inl e
         | Inr (pcd_path, w) \<Rightarrow>
             (let self = self\<lparr>converted_files := converted_files self @ [pcd_path]\<rparr>
              in case py_split pcd_path actual_path of
                   Inl e \<Rightarrow> Inl e
                 | Inr pieces \<Rightarrow> Inr (self, w, drop 1 (last pieces)))))"

definition pcd_truthy :: "pcd_properties \<Rightarrow> bool" where
  "pcd_truthy r = (case r of PcdNone \<Rightarrow> False | PcdTrue \<Rightarrow> True | PcdProps kv \<Rightarrow> kv \<noteq> [])"

definition pcd_operation :: "'w os_env \<Rightarrow> 'w \<Rightarrow> string \<Rightarrow> string \<Rightarrow> error + string" where
  "pcd_operation env w file_path actual_path =
     (case read_file env w file_path of
        Inl e \<Rightarrow> Inl e
      | Inr content \<Rightarrow>
          (case get_pcd_properties (readlines content) True of
             Inl e \<Rightarrow> Inl e
           | Inr is_pcd \<Rightarrow>
               if pcd_truthy is_pcd
               then (case py_split file_path actual_path of
                       Inl e \<Rightarrow> Inl e
                     | Inr pieces \<Rightarrow> Inr (drop 1 (last pieces)))
               else Inr file_path))"

fun process_files ::
  "'w os_env \<Rightarrow> ValidateDimension \<times> 'w \<Rightarrow> string \<Rightarrow> string \<Rightarrow> string list
     \<Rightarrow> (string, string) dict \<Rightarrow> error + (ValidateDimension \<times> 'w \<times> (string, string) dict)" where
  "process_files env (self, w) root_dir actual_path [] pcd_files = Inr (self, w, pcd_files)"
| "process_files env (self, w) root_dir actual_path (file # files) pcd_files =
     (case rsplit_once CHR ''.'' file of
        None \<Rightarrow> Inl ValueError
      | Some (file_name, file_extension) \<Rightarrow>
          (let file_path = os_path_abspath env (os_path_join root_dir file)
           in if file_extension = ''bin'' then
                (case bin_operation env (self, w) file_path actual_path of
                   Inl e \<Rightarrow> Inl e
                 | Inr (self, w, p) \<Rightarrow>
                     process_files env
                       (self\<lparr>related_files := dict_set (related_files self) p []\<rparr>, w)
                       root_dir actual_path files (dict_set pcd_files file_name p))
              else if file_extension = ''pcd'' then
                (case pcd_operation env w file_path actual_path of
                   Inl e \<Rightarrow> Inl e
                 | Inr p \<Rightarrow>
                     if p = file_path then
                       process_files env
                         (self\<lparr>image_files := dict_set (image_files self) file_name file_path\<rparr>, w)
                         root_dir actual_path files pcd_files
                     else
                       process_files env
                         (self\<lparr>related_files := dict_set (related_files self) p []\<rparr>, w)
                         root_dir actual_path files (dict_set pcd_files file_name p))
              else
                process_files env
                  (self\<lparr>image_files := dict_set (image_files self) file_name file_path\<rparr>, w)
                  root_dir actual_path files pcd_files))"

text \<open>\<^verbatim>\<open>self.related_files[key].append(value)\<close>.\<close>

definition related_append ::
  "ValidateDimension \<Rightarrow> string \<Rightarrow> string \<Rightarrow> error + ValidateDimension" where
  "related_append self key v =
     (case dict_get (related_files self) key of
        None \<Rightarrow> Inl KeyError
      | Some l \<Rightarrow> Inr (self\<lparr>related_files := dict_set (related_files self) key (l @ [v])\<rparr>))"

text \<open>
  \<^verbatim>\<open>validate_velodyne_points\<close>: the loop over the files of one \<^verbatim>\<open>image_N/data\<close>
  directory, the loop over the matches of the directory names, and the method.
\<close>

fun velodyne_files_loop ::
  "'w os_env \<Rightarrow> (string, string) dict \<Rightarrow> string \<Rightarrow> ValidateDimension \<Rightarrow> string list
     \<Rightarrow> error + ValidateDimension" where
  "velodyne_files_loop env velodyne_files data_dir self [] = Inr self"
| "velodyne_files_loop env velodyne_files data_dir self (file # files) =
     (let f_name = split_first file ''.''
      in case dict_get velodyne_files f_name of
           None \<Rightarrow> velodyne_files_loop env velodyne_files data_dir self files
         | Some v \<Rightarrow>
             if v = [] then velodyne_files_loop env velodyne_files data_dir self files
             else (case related_append self v (os_path_abspath env (os_path_join data_dir file)) of
                     Inl e \<Rightarrow> Inl e
                   | Inr self \<Rightarrow> velodyne_files_loop env velodyne_files data_dir self files))"

fun velodyne_paths_loop ::
  "'w os_env \<Rightarrow> 'w \<Rightarrow> (string, string) dict \<Rightarrow> string \<Rightarrow> ValidateDimension
     \<Rightarrow> string option list \<Rightarrow> error + ValidateDimension" where
  "velodyne_paths_loop env w velodyne_files related_path self [] = Inr self"
| "velodyne_paths_loop env w velodyne_files related_path self (None # path_list) =
     velodyne_paths_loop env w velodyne_files related_path self path_list"
| "velodyne_paths_loop env w velodyne_files related_path self (Some matched # path_list) =
     (let data_dir = os_path_join matched ''data'';
          data_dir = os_path_abspath env (os_path_join related_path data_dir)
      in case os_listdir env w data_dir of
           Inl e \<Rightarrow> Inl e
         | Inr names \<Rightarrow>
             (let files = filter (\<lambda>file. os_path_isfile env w
                                    (os_path_abspath env (os_path_join data_dir file))) names
              in case velodyne_files_loop env velodyne_files data_dir self files of
                   Inl e \<Rightarrow> Inl e
                 | Inr self \<Rightarrow> velodyne_paths_loop env w velodyne_files related_path self path_list))"

definition validate_velodyne_points ::
  "'w os_env \<Rightarrow> ValidateDimension \<times> 'w \<Rightarrow> string \<Rightarrow> string \<Rightarrow> string list
     \<Rightarrow> error + (ValidateDimension \<times> 'w)" where
  "validate_velodyne_points env sw root_dir actual_path files =
     (case process_files env sw root_dir actual_path files [] of
        Inl e \<Rightarrow> Inl e
      | Inr (self, w, velodyne_files) \<Rightarrow>
          (let related_path = fst (os_path_split (fst (os_path_split root_dir)))
           in case os_listdir env w related_path of
                Inl e \<Rightarrow> Inl e
              | Inr names \<Rightarrow>
                  (let path_list =
                         map (re_search_image env)
                           (filter (\<lambda>p. os_path_isdir env w (os_path_join related_path p)) names)
                   in case velodyne_paths_loop env w velodyne_files related_path self path_list of
                        Inl e \<Rightarrow> Inl e
                      | Inr self \<Rightarrow> Inr (self, w))))"

text \<open>\<^verbatim>\<open>validate_pointcloud\<close>, from the innermost loop outwards.\<close>

fun pointcloud_images_loop ::
  "(string, string) dict \<Rightarrow> string \<Rightarrow> string \<Rightarrow> ValidateDimension \<Rightarrow> string list
     \<Rightarrow> error + ValidateDimension" where
  "pointcloud_images_loop pointcloud_files k file_path self [] = Inr self"
| "pointcloud_images_loop pointcloud_files k file_path self (related_image # files) =
     (case dict_get pointcloud_files k of
        None \<Rightarrow> Inl KeyError
      | Some v \<Rightarrow>
          (case related_append self v (os_path_join file_path related_image) of
             Inl e \<Rightarrow> Inl e
           | Inr self \<Rightarrow> pointcloud_images_loop pointcloud_files k file_path self files))"

fun pointcloud_paths_loop ::
  "'w os_env \<Rightarrow> 'w \<Rightarrow> (string, string) dict \<Rightarrow> string \<Rightarrow> string \<Rightarrow> ValidateDimension
     \<Rightarrow> string list \<Rightarrow> error + ValidateDimension" where
  "pointcloud_paths_loop env w pointcloud_files related_images_path k self [] = Inr self"
| "pointcloud_paths_loop env w pointcloud_files related_images_path k self (p # paths) =
     (if k = split_first p ''_'' then
        (let file_path = os_path_abspath env (os_path_join related_images_path p)
         in case os_listdir env w file_path of
              Inl e \<Rightarrow> Inl e
            | Inr names \<Rightarrow>
                (let files = filter (\<lambda>file. os_path_isfile env w (os_path_join file_path file)) names
                 in case pointcloud_images_loop pointcloud_files k file_path self files of
                      Inl e \<Rightarrow> Inl e
                    | Inr self \<Rightarrow>
                        pointcloud_paths_loop env w pointcloud_files related_images_path k self paths))
      else pointcloud_paths_loop env w pointcloud_files related_images_path k self paths)"

fun pointcloud_keys_loop ::
  "'w os_env \<Rightarrow> 'w \<Rightarrow> (string, string) dict \<Rightarrow> string \<Rightarrow> string list \<Rightarrow> ValidateDimension
     \<Rightarrow> string list \<Rightarrow> error + ValidateDimension" where
  "pointcloud_keys_loop env w pointcloud_files related_images_path paths self [] = Inr self"
| "pointcloud_keys_loop env w pointcloud_files related_images_path paths self (k # keys) =
     (case pointcloud_paths_loop env w pointcloud_files related_images_path k self paths of
        Inl e \<Rightarrow> Inl e
      | Inr self \<Rightarrow> pointcloud_keys_loop env w pointcloud_files related_images_path paths self keys)"

definition validate_pointcloud ::
  "'w os_env \<Rightarrow> ValidateDimension \<times> 'w \<Rightarrow> string \<Rightarrow> string \<Rightarrow> string list
     \<Rightarrow> error + (ValidateDimension \<times> 'w)" where
  "validate_pointcloud env sw root_dir actual_path files =
     (case process_files env sw root_dir actual_path files [] of
        Inl e \<Rightarrow> Inl e
      | Inr (self, w, pointcloud_files) \<Rightarrow>
          (let related_path = split_first root_dir ''pointcloud'';
               related_images_path = os_path_join related_path ''related_images''
           in if os_path_isdir env w related_images_path then
                (case os_listdir env w related_images_path of
                   Inl e \<Rightarrow> Inl e
                 | Inr names \<Rightarrow>
                     (let paths = filter (\<lambda>p. os_path_isdir env w
                                            (os_path_abspath env (os_path_join related_images_path p)))
                                    names
                      in case pointcloud_keys_loop env w pointcloud_files related_images_path paths
                                self (map fst pointcloud_files) of
                           Inl e \<Rightarrow> Inl e
                         | Inr self \<Rightarrow> Inr (self, w)))
              else Inr (self, w)))"

text \<open>\<^verbatim>\<open>validate_default\<close>: its two loops over the images seen so far, and the method.\<close>

fun default_stem_loop ::
  "(string, string) dict \<Rightarrow> ValidateDimension \<Rightarrow> (string \<times> string) list
     \<Rightarrow> error + ValidateDimension" where
  "default_stem_loop pcd_files self [] = Inr self"
| "default_stem_loop pcd_files self ((img, image_path) # images) =
     (case dict_get pcd_files img of
        None \<Rightarrow> default_stem_loop pcd_files self images
      | Some v \<Rightarrow>
          if v = [] then default_stem_loop pcd_files self images
          else (case related_append self v image_path of
                  Inl e \<Rightarrow> Inl e
                | Inr self \<Rightarrow> default_stem_loop pcd_files self images))"

fun default_directory_loop ::
  "(string, string) dict \<Rightarrow> string \<Rightarrow> string \<Rightarrow> ValidateDimension \<Rightarrow> string list
     \<Rightarrow> error + ValidateDimension" where
  "default_directory_loop pcd_files pcd_name root_dir self [] = Inr self"
| "default_directory_loop pcd_files pcd_name root_dir self (related_image # images) =
     (if root_dir = fst (os_path_split related_image) then
        (case dict_get pcd_files pcd_name of
           None \<Rightarrow> Inl KeyError
         | Some v \<Rightarrow>
             (case related_append self v related_image of
                Inl e \<Rightarrow> Inl e
              | Inr self \<Rightarrow> default_directory_loop pcd_files pcd_name root_dir self images))
      else default_directory_loop pcd_files pcd_name root_dir self images)"

definition validate_default ::
  "'w os_env \<Rightarrow> ValidateDimension \<times> 'w \<Rightarrow> string \<Rightarrow> string \<Rightarrow> string list
     \<Rightarrow> error + (ValidateDimension \<times> 'w)" where
  "validate_default env sw root_dir actual_path files =
     (case process_files env sw root_dir actual_path files [] of
        Inl e \<Rightarrow> Inl e
      | Inr (self, w, pcd_files) \<Rightarrow>
          if pcd_files \<noteq> [] then
            (case default_stem_loop pcd_files self (image_files self) of
               Inl e \<Rightarrow> Inl e
             | Inr self \<Rightarrow>
                 (let current_directory_name = os_path_split root_dir
                  in if length pcd_files = 1 then
                       (let pcd_name = split_first (fst (hd pcd_files)) ''.''
                        in if snd current_directory_name = pcd_name then
                             (case default_directory_loop pcd_files pcd_name root_dir self
                                     (map snd (image_files self)) of
                                Inl e \<Rightarrow> Inl e
                              | Inr self \<Rightarrow> Inr (self, w))
                           else Inr (self, w))
                     else Inr (self, w)))
          else Inr (self, w))"

text \<open>\<^verbatim>\<open>validate\<close>: the loop over \<^verbatim>\<open>os.walk(actual_path)\<close>, then the method.\<close>

fun validate_walk ::
  "'w os_env \<Rightarrow> string \<Rightarrow> ValidateDimension \<times> 'w \<Rightarrow> (string \<times> string list \<times> string list) list
     \<Rightarrow> error + (ValidateDimension \<times> 'w)" where
  "validate_walk env actual_path sw [] = Inr sw"
| "validate_walk env actual_path sw ((root_dir, _, files) # walk) =
     (case (if endswith root_dir ''data'' then
              (if snd (os_path_split (fst (os_path_split root_dir))) = ''velodyne_points''
               then validate_velodyne_points env sw root_dir actual_path files
               else Inr sw)
            else if snd (os_path_split root_dir) = ''pointcloud''
            then validate_pointcloud env sw root_dir actual_path files
            else validate_default env sw root_dir actual_path files) of
        Inl e \<Rightarrow> Inl e
      | Inr sw \<Rightarrow> validate_walk env actual_path sw walk)"

definition validate ::
  "'w os_env \<Rightarrow> ValidateDimension \<times> 'w \<Rightarrow> error + (ValidateDimension \<times> 'w)" where
  "validate env sw =
     (case sw of (self, w) \<Rightarrow>
        (case path self of
           None \<Rightarrow> Inr (self, w)
         | Some actual_path \<Rightarrow>
             if actual_path = [] then Inr (self, w)
             else (case validate_walk env actual_path (self, w) (os_walk env w actual_path) of
                     Inl e \<Rightarrow> Inl e
                   | Inr (self, w) \<Rightarrow>
                       if related_files self \<noteq> []
                       then Inr (self\<lparr>dimension := DIM_3D\<rparr>, w)
                       else Inr (self, w))))"

section \<open>Sample inputs\<close>

text \<open>
  Concrete inputs at which the theorems below are instantiated: a frame of 1922 by 1080
  pixels whose picture is left out.
\<close>

definition sample_frame :: "unit VideoFrame" where
  "sample_frame = \<lparr>frame_width = 1922, frame_height = 1080, frame_image = (),
                    frame_pts = Some 40, frame_time_base = None\<rparr>"

text \<open>
  An imaging library whose pictures are their sizes, a reader of plain decimal numerals
  standing for \<^verbatim>\<open>int\<close>, and a file system without files.
\<close>

definition sample_imaging :: "(unit, int \<times> int) imaging" where
  "sample_imaging =
     \<lparr>pil_open = (\<lambda>m. case m of Frame f \<Rightarrow> Inr (frame_width f, frame_height f)
                             | BytesIO b \<Rightarrow> Inr (640, 480)
                             | FilePath f \<Rightarrow> Inl FileNotFoundError),
      pil_mode = (\<lambda>_. ''RGB''),
      pil_autoscale = (\<lambda>p. p),
      pil_convert_rgb = (\<lambda>p. p),
      pil_save_jpeg = (\<lambda>_ _. ''jpeg''),
      pil_size = (\<lambda>p. p)\<rparr>"

definition decimal_int :: "string \<Rightarrow> int option" where
  "decimal_int s =
     (if s \<noteq> [] \<and> (\<forall>c \<in> set s. c \<in> set ''0123456789'')
      then Some (foldl (\<lambda>n c. 10 * n + (int (of_char c) - 48)) 0 s)
      else None)"

definition no_files :: files where
  "no_files = (\<lambda>_. None)"

text \<open>
  A video library whose pictures and arrays are orientations in degrees, and a container
  with two video packets of two frames each around an audio packet, its video stream
  declaring a rotation of 90 degrees.
\<close>

definition sample_video_lib :: "(int, int) video_lib" where
  "sample_video_lib =
     \<lparr>to_ndarray = frame_image,
      from_ndarray = (\<lambda>a. \<lparr>frame_width = 1080, frame_height = 1922, frame_image = a,
                              frame_pts = None, frame_time_base = None\<rparr>),
      rotate_image = (\<lambda>a degrees. (a + degrees) mod 360),
      parse_int = decimal_int\<rparr>"

definition decoded_frame :: "int \<Rightarrow> int VideoFrame" where
  "decoded_frame t = \<lparr>frame_width = 1922, frame_height = 1080, frame_image = 0,
                        frame_pts = Some t, frame_time_base = None\<rparr>"

definition rotated_stream :: stream where
  "rotated_stream = \<lparr>stream_type = ''video'', stream_metadata = [(''rotate'', ''90'')]\<rparr>"

definition audio_stream :: stream where
  "audio_stream = \<lparr>stream_type = ''audio'', stream_metadata = []\<rparr>"

definition sample_container :: "int input_container" where
  "sample_container =
     \<lparr>container_demux =
        [\<lparr>packet_stream = rotated_stream, packet_decode = [decoded_frame 0, decoded_frame 40]\<rparr>,
         \<lparr>packet_stream = audio_stream, packet_decode = []\<rparr>,
         \<lparr>packet_stream = rotated_stream, packet_decode = [decoded_frame 80, decoded_frame 120]\<rparr>],
      container_streams = [audio_stream, rotated_stream]\<rparr>"

text \<open>
  A file system whose walk finds one directory with a point cloud and an image of the same
  stem; every file reads as a two-line point-cloud header.
\<close>

definition sample_env :: "unit os_env" where
  "sample_env =
     \<lparr>os_walk = (\<lambda>_ _. [(''/ds'', [], [''c.pcd'', ''c.jpg''])]),
      os_listdir = (\<lambda>_ _. Inr []),
      os_path_isdir = (\<lambda>_ _. False),
      os_path_isfile = (\<lambda>_ _. True),
      os_path_abspath = (\<lambda>p. p),
      read_file = (\<lambda>_ _. Inr ''VERSION 0.7\<newline>DATA ascii\<newline>''),
      write_point_cloud = (\<lambda>w _ _. Inr w),
      os_remove = (\<lambda>w _. Inr w),
      re_search_image = (\<lambda>_. None)\<rparr>"

text \<open>
  A second video stream, declaring a rotation of 180 degrees, and a container with one
  packet of one frame on each of the two video streams.
\<close>

definition upside_down_stream :: stream where
  "upside_down_stream = \<lparr>stream_type = ''video'', stream_metadata = [(''rotate'', ''180'')]\<rparr>"

definition two_stream_container :: "int input_container" where
  "two_stream_container =
     \<lparr>container_demux =
        [\<lparr>packet_stream = rotated_stream, packet_decode = [decoded_frame 0]\<rparr>,
         \<lparr>packet_stream = upside_down_stream, packet_decode = [decoded_frame 40]\<rparr>],
      container_streams = [rotated_stream, upside_down_stream]\<rparr>"

text \<open>
  The sample file system again, its files now reading as a header with a line that has no
  space, and as a header of a version that is not known.
\<close>

definition malformed_env :: "unit os_env" where
  "malformed_env =
     sample_env\<lparr>read_file := (\<lambda>_ _. Inr ''VERSION 0.7\<newline>WIDTH\<newline>DATA ascii\<newline>'')\<rparr>"

definition unknown_version_env :: "unit os_env" where
  "unknown_version_env =
     sample_env\<lparr>read_file := (\<lambda>_ _. Inr ''VERSION 9\<newline>DATA ascii\<newline>'')\<rparr>"

section \<open>Properties of the video chunk writers\<close>

subsection \<open>Rounding\<close>

lemma py_round_frac:
  fixes a b :: int
  assumes "0 < b"
  shows "py_round (of_int a / of_int b) =
     (if 2 * (a mod b) < b then a div b else if b < 2 * (a mod b) then a div b + 1
      else if even (a div b) then a div b else a div b + 1)"
proof -
  have f: "\<lfloor>real_of_int a / real_of_int b\<rfloor> = a div b"
    by (simp add: floor_divide_of_int_eq)
  have "real_of_int a = real_of_int (b * (a div b) + a mod b)"
    by simp
  then have "real_of_int a = real_of_int b * real_of_int (a div b) + real_of_int (a mod b)"
    by (simp only: of_int_add of_int_mult)
  then have d: "real_of_int a / real_of_int b - of_int (a div b) = of_int (a mod b) / of_int b"
    using assms by (simp add: field_simps)
  have "(2 * (a mod b) < b) = (real_of_int (2 * (a mod b)) < real_of_int b)"
    by (simp only: of_int_less_iff)
  then have lt: "(real_of_int (a mod b) / of_int b < 1 / 2) = (2 * (a mod b) < b)"
    using assms by (simp add: field_simps)
  have "(b < 2 * (a mod b)) = (real_of_int b < real_of_int (2 * (a mod b)))"
    by (simp only: of_int_less_iff)
  then have gt: "(1 / 2 < real_of_int (a mod b) / of_int b) = (b < 2 * (a mod b))"
    using assms by (simp add: field_simps)
  show ?thesis unfolding py_round_def Let_def f d lt gt by simp
qed

lemma round_frac:
  fixes a b :: int
  assumes "0 < b"
  shows "round (of_int a / of_int b :: real) = (2 * a + b) div (2 * b)"
proof -
  have "real_of_int a / real_of_int b + 1 / 2 = real_of_int (2 * a + b) / real_of_int (2 * b)"
    using assms by (simp add: field_simps)
  then show ?thesis unfolding round_def by (simp only: floor_divide_of_int_eq)
qed

text \<open>A quotient by 99 is never half-way between two integers, so no tie is ever broken.\<close>

lemma py_round_99: "py_round (real_of_int a / 99) = (2 * a + 99) div 198"
proof -
  define r d where "r = a mod 99" and "d = a div 99"
  have a: "a = 99 * d + r" and r0: "0 \<le> r" and r99: "r < 99"
    by (simp_all add: r_def d_def)
  have "2 * a + 99 = (2 * r + 99) + d * 198"
    by (simp add: a)
  then have split: "(2 * a + 99) div 198 = (2 * r + 99) div 198 + d"
    by (simp only: div_mult_self1)
  have "even (2 * r)" and "odd (99 :: int)" by simp_all
  then have tie: "2 * r \<noteq> 99"
    by metis
  have py: "py_round (real_of_int a / real_of_int 99) =
     (if 2 * r < 99 then d else if 99 < 2 * r then d + 1
      else if even d then d else d + 1)"
    unfolding r_def d_def by (rule py_round_frac) simp
  show ?thesis
  proof (cases "2 * r < 99")
    case True
    then have "(2 * r + 99) div 198 = 0"
      using r0 by (simp add: div_pos_pos_trivial)
    with True py split show ?thesis by simp
  next
    case False
    with tie have gt: "99 < 2 * r" by simp
    have "2 * r + 99 = (2 * r - 99) + 1 * 198" by simp
    then have "(2 * r + 99) div 198 = (2 * r - 99) div 198 + 1"
      by (simp only: div_mult_self1)
    moreover have "(2 * r - 99) div 198 = 0"
      using gt r99 by (simp add: div_pos_pos_trivial)
    ultimately show ?thesis using gt py split by simp
  qed
qed

lemma round_99: "round (real_of_int a / 99) = (2 * a + 99) div 198"
  using round_frac [of 99 a] by simp

lemma py_round_nearest:
  assumes "real_of_int n - 1 / 2 < x" and "x < real_of_int n + 1 / 2"
  shows "py_round x = n"
proof -
  have "n - 1 \<le> \<lfloor>x\<rfloor>" using assms(1) by linarith
  moreover have "\<lfloor>x\<rfloor> \<le> n" using assms(2) by linarith
  ultimately consider "\<lfloor>x\<rfloor> = n" | "\<lfloor>x\<rfloor> = n - 1" by linarith
  then show ?thesis
  proof cases
    case 1
    with assms(2) show ?thesis by (simp add: py_round_def Let_def)
  next
    case 2
    with assms(1) show ?thesis by (simp add: py_round_def Let_def)
  qed
qed

text \<open>
  The source divides in floating point. The float quotient is within \<open>1 / 198\<close> of the
  exact one by a wide margin, and any such value rounds to the same integer.
\<close>

lemma py_round_stable:
  assumes "\<bar>x - real_of_int a / 99\<bar> < 1 / 198"
  shows "py_round x = py_round (real_of_int a / 99)"
proof -
  define n where "n = (2 * a + 99) div 198"
  have lo: "198 * n \<le> 2 * a + 99" and hi: "2 * a + 99 < 198 * n + 198"
    unfolding n_def by linarith+
  have "odd (2 * a + 99)" and "even (198 * n)" by simp_all
  then have "2 * a + 99 \<noteq> 198 * n" by metis
  with lo have lo': "198 * n + 1 \<le> 2 * a + 99" by simp
  have hi': "2 * a + 99 \<le> 198 * n + 197" using hi by simp
  have "real_of_int (198 * n + 1) \<le> real_of_int (2 * a + 99)"
    using lo' by (simp only: of_int_le_iff)
  then have l: "real_of_int n - 98 / 198 \<le> real_of_int a / 99" by simp
  have "real_of_int (2 * a + 99) \<le> real_of_int (198 * n + 197)"
    using hi' by (simp only: of_int_le_iff)
  then have h: "real_of_int a / 99 \<le> real_of_int n + 98 / 198" by simp
  have "py_round x = n"
    using assms l h by (intro py_round_nearest) linarith+
  then show ?thesis by (simp add: py_round_99 n_def)
qed

lemma quality_eq:
  "image_quality (Mpeg4CompressedChunkWriter_init q) = (10299 - 102 * q) div 198"
proof -
  have "image_quality (Mpeg4CompressedChunkWriter_init q) =
          py_round (real_of_int (51 * (100 - q)) / 99)"
    by (simp only: Mpeg4CompressedChunkWriter_init_def ChunkWriter.select_convs)
  also have "\<dots> = (2 * (51 * (100 - q)) + 99) div 198"
    by (rule py_round_99)
  finally show ?thesis by simp
qed

lemma quality_round:
  "image_quality (Mpeg4CompressedChunkWriter_init q) = round (51 * (100 - real_of_int q) / 99)"
proof -
  have "round (51 * (100 - real_of_int q) / 99) = round (real_of_int (51 * (100 - q)) / 99)"
    by simp
  also have "\<dots> = (2 * (51 * (100 - q)) + 99) div 198"
    by (rule round_99)
  finally show ?thesis by (simp add: quality_eq)
qed

lemma quality_antimono:
  assumes "q \<le> q'"
  shows "image_quality (Mpeg4CompressedChunkWriter_init q')
           \<le> image_quality (Mpeg4CompressedChunkWriter_init q)"
  unfolding quality_eq using assms by (intro zdiv_mono1) simp_all

subsection \<open>The encoder settings\<close>

lemma encode_images_fields:
  "av_options (encode_images images c) = av_options c"
  "av_width (encode_images images c) = av_width c"
  "av_height (encode_images images c) = av_height c"
  by (induction images c rule: encode_images.induct) simp_all

lemma py_str_17: "py_str 17 = ''17''"
  by (simp add: py_str_def)

text \<open>
  C10. Whatever quality is passed to \<^verbatim>\<open>Mpeg4ChunkWriter\<close>, the writer's quality is 17,
  and \<^verbatim>\<open>save_as_chunk\<close> on a non-empty list of frames opens the encoder with
  \<^verbatim>\<open>qmin\<close> and \<^verbatim>\<open>qmax\<close> both \<^verbatim>\<open>'17'\<close>: the argument has no effect on the settings.
\<close>

theorem mpeg4_original_quality_constant:
  "image_quality (Mpeg4ChunkWriter_init q) = 17 \<and>
   map_sum id (av_options \<circ> fst)
     (Mpeg4ChunkWriter_save_as_chunk (Mpeg4ChunkWriter_init q) ((frame, src, idx) # images)
        chunk_path)
   = Inr [(''profile'', ''constrained_baseline''), (''qmin'', ''17''), (''qmax'', ''17''),
          (''rc_mode'', ''buffer'')]"
  by (simp add: Mpeg4ChunkWriter_init_def IChunkWriter_init_def Mpeg4ChunkWriter_save_as_chunk_def
      Let_def encode_images_fields create_av_container_def encoder_options_def py_str_17)

subsection \<open>Downscaling\<close>

text \<open>
  The loop of \<^verbatim>\<open>Mpeg4CompressedChunkWriter.save_as_chunk\<close> returns from every factor
  that is at least one, with the first doubling of it that brings the height below 1080.
\<close>

lemma downscale_loop_returns:
  assumes "1 \<le> f"
  shows "\<exists>k. downscale_loop h f = Some (f * 2 ^ k)
           \<and> real_of_int h / real_of_int (f * 2 ^ k) < 1080
           \<and> (\<forall>j<k. 1080 \<le> real_of_int h / real_of_int (f * 2 ^ j))"
  using assms
proof (induction "nat (h - 1080 * f + 1)" arbitrary: f rule: less_induct)
  case less
  show ?case
  proof (cases "1080 \<le> real_of_int h / real_of_int f")
    case True
    have fpos: "0 < real_of_int f" using less.prems by simp
    from True fpos have "1080 * real_of_int f \<le> real_of_int h"
      by (simp add: pos_le_divide_eq)
    then have "real_of_int (1080 * f) \<le> real_of_int h" by simp
    then have hf: "1080 * f \<le> h" by (simp only: of_int_le_iff)
    have "nat (h - 1080 * (f * 2) + 1) < nat (h - 1080 * f + 1)"
      using hf less.prems by simp
    moreover have "1 \<le> f * 2" using less.prems by simp
    ultimately obtain k where
      k: "downscale_loop h (f * 2) = Some (f * 2 * 2 ^ k)"
         "real_of_int h / real_of_int (f * 2 * 2 ^ k) < 1080"
         "\<forall>j<k. 1080 \<le> real_of_int h / real_of_int (f * 2 * 2 ^ j)"
      using less.hyps [of "f * 2"] by blast
    have loop: "downscale_loop h f = downscale_loop h (f * 2)"
      using True by (subst downscale_loop.simps) simp
    have "\<forall>j<Suc k. 1080 \<le> real_of_int h / real_of_int (f * 2 ^ j)"
    proof (intro allI impI)
      fix j assume "j < Suc k"
      show "1080 \<le> real_of_int h / real_of_int (f * 2 ^ j)"
      proof (cases j)
        case 0
        with True show ?thesis by simp
      next
        case (Suc i)
        with \<open>j < Suc k\<close> have "i < k" by simp
        with k(3) have "1080 \<le> real_of_int h / real_of_int (f * 2 * 2 ^ i)" by blast
        with Suc show ?thesis by (simp add: mult.assoc)
      qed
    qed
    with k(1,2) loop show ?thesis
      by (intro exI [of _ "Suc k"]) (simp add: mult.assoc)
  next
    case False
    then have "downscale_loop h f = Some f"
      by (subst downscale_loop.simps) simp
    with False show ?thesis
      by (intro exI [of _ 0]) simp
  qed
qed

lemma downscale_factor_exists:
  "\<exists>k. real_of_int h / 2 ^ k < 1080 \<and> (\<forall>j<k. 1080 \<le> real_of_int h / 2 ^ j)"
  using downscale_loop_returns [of 1 h] by auto

lemma downscale_loop_least:
  assumes "real_of_int h / 2 ^ k < 1080" and "\<forall>j<k. 1080 \<le> real_of_int h / 2 ^ j"
  shows "downscale_loop h 1 = Some (2 ^ k)"
proof -
  obtain k' where k': "downscale_loop h 1 = Some (2 ^ k')" "real_of_int h / 2 ^ k' < 1080"
      "\<forall>j<k'. 1080 \<le> real_of_int h / 2 ^ j"
    using downscale_loop_returns [of 1 h] by auto
  have "\<not> k < k'" using assms(1) k'(3) by fastforce
  moreover have "\<not> k' < k" using assms(2) k'(2) by fastforce
  ultimately have "k' = k" by simp
  with k'(1) show ?thesis by simp
qed

lemma mpeg4_compressed_save:
  assumes "downscale_loop (frame_height first) 1 = Some f" and "output_fps self = Some rate"
  shows "\<exists>c. Mpeg4CompressedChunkWriter_save_as_chunk self ((first, src, idx) # images) chunk_path
               = Some (Inr (c, [(frame_width first, frame_height first)]))
             \<and> av_options c = encoder_options (image_quality self)
             \<and> av_width c = (let w = frame_width first div f in w + w mod 2)
             \<and> av_height c = (let h = frame_height first div f in h + h mod 2)"
  using assms
  by (simp add: Mpeg4CompressedChunkWriter_save_as_chunk_def Let_def encode_images_fields
      create_av_container_def)

lemma compressed_fps: "output_fps (Mpeg4CompressedChunkWriter_init q) = Some 25"
  by (simp add: Mpeg4CompressedChunkWriter_init_def)

text \<open>
  C4. \<^verbatim>\<open>Mpeg4CompressedChunkWriter\<close> sets the encoder quality to
  \<open>51 * (100 - q) / 99\<close> rounded to the nearest integer, for every integer \<open>q\<close>
  and so for every \<open>q\<close> from 1 to 100; the mapping is decreasing (not strictly), sends
  100 to 0 and 1 to 51, and \<^verbatim>\<open>save_as_chunk\<close> on a non-empty list of frames passes the
  quality as both \<^verbatim>\<open>qmin\<close> and \<^verbatim>\<open>qmax\<close>.
\<close>

theorem mpeg4_compressed_quality_mapping:
  assumes "q \<le> q'"
  shows "image_quality (Mpeg4CompressedChunkWriter_init q) = round (51 * (100 - real_of_int q) / 99)
       \<and> image_quality (Mpeg4CompressedChunkWriter_init q')
           \<le> image_quality (Mpeg4CompressedChunkWriter_init q)
       \<and> image_quality (Mpeg4CompressedChunkWriter_init 100) = 0
       \<and> image_quality (Mpeg4CompressedChunkWriter_init 1) = 51
       \<and> map_option (map_sum id (av_options \<circ> fst))
           (Mpeg4CompressedChunkWriter_save_as_chunk (Mpeg4CompressedChunkWriter_init q)
              ((frame, src, idx) # images) chunk_path)
         = Some (Inr [(''profile'', ''constrained_baseline''),
                      (''qmin'', py_str (image_quality (Mpeg4CompressedChunkWriter_init q))),
                      (''qmax'', py_str (image_quality (Mpeg4CompressedChunkWriter_init q))),
                      (''rc_mode'', ''buffer'')])"
proof -
  obtain k where k: "downscale_loop (frame_height frame) 1 = Some (2 ^ k)"
    using downscale_loop_returns [of 1 "frame_height frame"] by auto
  obtain c where "Mpeg4CompressedChunkWriter_save_as_chunk (Mpeg4CompressedChunkWriter_init q)
              ((frame, src, idx) # images) chunk_path
               = Some (Inr (c, [(frame_width frame, frame_height frame)]))"
    and "av_options c = encoder_options (image_quality (Mpeg4CompressedChunkWriter_init q))"
    using mpeg4_compressed_save [where self = "Mpeg4CompressedChunkWriter_init q" and src = src
        and idx = idx and images = images and chunk_path = chunk_path, OF k compressed_fps]
    by blast
  then have "map_option (map_sum id (av_options \<circ> fst))
           (Mpeg4CompressedChunkWriter_save_as_chunk (Mpeg4CompressedChunkWriter_init q)
              ((frame, src, idx) # images) chunk_path)
         = Some (Inr (encoder_options (image_quality (Mpeg4CompressedChunkWriter_init q))))"
    by simp
  moreover have "image_quality (Mpeg4CompressedChunkWriter_init 100) = 0"
    and "image_quality (Mpeg4CompressedChunkWriter_init 1) = 51"
    by (simp_all add: quality_eq)
  ultimately show ?thesis
    using quality_round [of q] quality_antimono [OF assms]
    by (simp add: encoder_options_def)
qed

theorem mpeg4_compressed_quality_mapping_witness:
  "(1 :: int) \<le> 100
   \<and> image_quality (Mpeg4CompressedChunkWriter_init 1) = round (51 * (100 - real_of_int 1) / 99)
       \<and> image_quality (Mpeg4CompressedChunkWriter_init 100)
           \<le> image_quality (Mpeg4CompressedChunkWriter_init 1)
       \<and> image_quality (Mpeg4CompressedChunkWriter_init 100) = 0
       \<and> image_quality (Mpeg4CompressedChunkWriter_init 1) = 51
       \<and> map_option (map_sum id (av_options \<circ> fst))
           (Mpeg4CompressedChunkWriter_save_as_chunk (Mpeg4CompressedChunkWriter_init 1)
              ((sample_frame, ''video.mp4'', 0 :: int) # []) ''chunk.mp4'')
         = Some (Inr [(''profile'', ''constrained_baseline''),
                      (''qmin'', py_str (image_quality (Mpeg4CompressedChunkWriter_init 1))),
                      (''qmax'', py_str (image_quality (Mpeg4CompressedChunkWriter_init 1))),
                      (''rc_mode'', ''buffer'')])"
proof -
  have h: "(1 :: int) \<le> 100" by simp
  show ?thesis
    by (rule conjI) (rule h, rule mpeg4_compressed_quality_mapping [OF h])
qed

text \<open>
  C5, as amended. Let \<open>2 ^ k\<close> be the smallest power of two with \<open>H / 2 ^ k < 1080\<close>
  for the height \<open>H\<close> of the first frame (\<open>k = 0\<close> when \<open>H < 1080\<close>). Then
  \<^verbatim>\<open>save_as_chunk\<close> returns, it asks the container for \<open>W div 2 ^ k\<close> by
  \<open>H div 2 ^ k\<close>, and the encoded stream has these two numbers each rounded up to an
  even number, as \<^verbatim>\<open>_create_av_container\<close> does for the codec.
\<close>

theorem downscale_dimensions:
  assumes "real_of_int (frame_height first) / 2 ^ k < 1080"
    and "\<forall>j<k. 1080 \<le> real_of_int (frame_height first) / 2 ^ j"
  shows "map_option (map_sum id (\<lambda>(c, sizes). (av_width c, av_height c)))
           (Mpeg4CompressedChunkWriter_save_as_chunk (Mpeg4CompressedChunkWriter_init q)
              ((first, src, idx) # images) chunk_path)
         = Some (Inr (let w = frame_width first div 2 ^ k in w + w mod 2,
                      let h = frame_height first div 2 ^ k in h + h mod 2))"
proof -
  from mpeg4_compressed_save [where self = "Mpeg4CompressedChunkWriter_init q" and src = src
        and idx = idx and images = images and chunk_path = chunk_path,
        OF downscale_loop_least [OF assms] compressed_fps]
  obtain c where "Mpeg4CompressedChunkWriter_save_as_chunk (Mpeg4CompressedChunkWriter_init q)
              ((first, src, idx) # images) chunk_path
               = Some (Inr (c, [(frame_width first, frame_height first)]))"
    and "av_width c = (let w = frame_width first div 2 ^ k in w + w mod 2)"
    and "av_height c = (let h = frame_height first div 2 ^ k in h + h mod 2)"
    by blast
  then show ?thesis by simp
qed

text \<open>
  C5 as stated fails where the halved width is odd: a first frame of 1922 by 1080 is
  encoded 962 pixels wide, not \<open>1922 div 2 = 961\<close>.
\<close>

lemma sample_loop: "downscale_loop 1080 1 = Some 2"
  by (simp add: downscale_loop.simps)

theorem downscale_dimensions_counterexample:
  "map_option (map_sum id (av_width \<circ> fst))
     (Mpeg4CompressedChunkWriter_save_as_chunk (Mpeg4CompressedChunkWriter_init 70)
        [(sample_frame, ''video.mp4'', 0 :: int)] ''chunk.mp4'')
   = Some (Inr 962)
   \<and> frame_width sample_frame div 2 ^ 1 = 961
   \<and> real_of_int (frame_height sample_frame) / 2 ^ 1 < 1080
   \<and> \<not> real_of_int (frame_height sample_frame) / 2 ^ 0 < 1080"
  by (simp add: Mpeg4CompressedChunkWriter_save_as_chunk_def sample_frame_def sample_loop
      Mpeg4CompressedChunkWriter_init_def Let_def encode_images_fields create_av_container_def)

theorem downscale_dimensions_witness:
  "real_of_int (frame_height sample_frame) / 2 ^ 1 < 1080
   \<and> 1080 \<le> real_of_int (frame_height sample_frame) / 2 ^ 0
   \<and> map_option (map_sum id (\<lambda>(c, sizes). (av_width c, av_height c)))
           (Mpeg4CompressedChunkWriter_save_as_chunk (Mpeg4CompressedChunkWriter_init 70)
              ((sample_frame, ''video.mp4'', 0 :: int) # []) ''chunk.mp4'')
         = Some (Inr (962, 540))"
proof -
  have h1: "real_of_int (frame_height sample_frame) / 2 ^ 1 < 1080"
    by (simp add: sample_frame_def)
  have h2: "\<forall>j<1. 1080 \<le> real_of_int (frame_height sample_frame) / 2 ^ j"
    by (simp add: sample_frame_def)
  from downscale_dimensions [OF h1 h2, of 70 "''video.mp4''" "0 :: int" "[]" "''chunk.mp4''"]
  have "map_option (map_sum id (\<lambda>(c, sizes). (av_width c, av_height c)))
           (Mpeg4CompressedChunkWriter_save_as_chunk (Mpeg4CompressedChunkWriter_init 70)
              ((sample_frame, ''video.mp4'', 0 :: int) # []) ''chunk.mp4'')
         = Some (Inr (962, 540))"
    by (simp add: sample_frame_def)
  moreover have "1080 \<le> real_of_int (frame_height sample_frame) / 2 ^ 0"
    by (simp add: sample_frame_def)
  ultimately show ?thesis using h1 by blast
qed


section \<open>What the chunk writers return\<close>

text \<open>
  C8. On an empty list of frames both video writers raise
  \<^verbatim>\<open>Exception('no images to save')\<close>, and both archive writers, given a destination
  that does not exist yet, return normally with an archive that has no member (and an empty
  list of sizes).
\<close>

theorem empty_frame_list:
  assumes "fs chunk_path = None"
  shows "Mpeg4ChunkWriter_save_as_chunk video [] chunk_path
           = Inl (Exception ''no images to save'')
       \<and> Mpeg4CompressedChunkWriter_save_as_chunk compressed_video [] chunk_path
           = Some (Inl (Exception ''no images to save''))
       \<and> ZipChunkWriter_save_as_chunk fs archive [] chunk_path = Inr ([], [])
       \<and> ZipCompressedChunkWriter_save_as_chunk lib py_int fs compressed_archive [] chunk_path
           = Inr ([], [])"
  using assms
  by (simp add: Mpeg4ChunkWriter_save_as_chunk_def Mpeg4CompressedChunkWriter_save_as_chunk_def
      ZipChunkWriter_save_as_chunk_def ZipCompressedChunkWriter_save_as_chunk_def)

theorem empty_frame_list_witness:
  "no_files ''chunk'' = None
   \<and> Mpeg4ChunkWriter_save_as_chunk (Mpeg4ChunkWriter_init 70)
        ([] :: (unit VideoFrame \<times> string \<times> int) list) ''chunk''
       = Inl (Exception ''no images to save'')
   \<and> Mpeg4CompressedChunkWriter_save_as_chunk (Mpeg4CompressedChunkWriter_init 70)
        ([] :: (unit VideoFrame \<times> string \<times> int) list) ''chunk''
       = Some (Inl (Exception ''no images to save''))
   \<and> ZipChunkWriter_save_as_chunk no_files (IChunkWriter_init 100 DIM_2D)
        ([] :: (unit media \<times> string \<times> int) list) ''chunk'' = Inr ([], [])
   \<and> ZipCompressedChunkWriter_save_as_chunk sample_imaging decimal_int no_files
        (IChunkWriter_init 70 DIM_2D) ([] :: (unit media \<times> string \<times> int) list) ''chunk''
       = Inr ([], [])"
proof -
  have h: "no_files ''chunk'' = None" by (simp add: no_files_def)
  show ?thesis
    by (rule conjI)
      (rule h, rule empty_frame_list [where fs = no_files and chunk_path = "''chunk''", OF h])
qed


subsection \<open>The list of sizes\<close>

lemma zip_chunk_sizes:
  "ZipChunkWriter_save_as_chunk fs self images chunk_path = Inr (z, sizes) \<Longrightarrow> sizes = []"
  by (auto simp: ZipChunkWriter_save_as_chunk_def split: if_splits sum.splits)

lemma zip_compress_spec:
  assumes "zip_compress lib py_int fs self images idx z0 s0 = Inr (z, s)"
  shows "\<exists>z' s'. z = z0 @ z' \<and> s = s0 @ s' \<and> length z' = length images \<and> length s' = length images \<and>
           list_all2 (\<lambda>item (size, member).
              (if dimension_flag self = Some DIM_2D
               then compress_image lib (fst item) (image_quality self)
               else pcd_image py_int fs (fst item)) = Inr (fst size, snd size, snd member))
             images (zip s' z')"
  using assms
proof (induction images arbitrary: idx z0 s0)
  case Nil
  then show ?case by simp
next
  case (Cons item images)
  obtain img p i where item: "item = (img, p, i)" by (cases item)
  from Cons.prems item obtain d where d: "dimension_flag self = Some d"
    by (cases "dimension_flag self") simp_all
  define enc where "enc = (if d = DIM_2D
                 then (case compress_image lib img (image_quality self) of
                         Inl e \<Rightarrow> Inl e | Inr (w, h, image_buf) \<Rightarrow> Inr (w, h, image_buf, ''jpeg''))
                 else (case pcd_image py_int fs img of
                         Inl e \<Rightarrow> Inl e | Inr (w, h, image_buf) \<Rightarrow> Inr (w, h, image_buf, ''pcd'')))"
  from Cons.prems item d obtain w h buf ext where enc: "enc = Inr (w, h, buf, ext)"
    and rec: "zip_compress lib py_int fs self images (idx + 1)
                 (z0 @ [(format_06d idx @ ''.'' @ ext, buf)]) (s0 @ [(w, h)]) = Inr (z, s)"
    unfolding enc_def by (auto split: sum.splits)
  from enc have one: "(if dimension_flag self = Some DIM_2D
               then compress_image lib img (image_quality self)
               else pcd_image py_int fs img) = Inr (w, h, buf)"
    unfolding enc_def using d by (auto split: if_splits sum.splits)
  from Cons.IH [OF rec] obtain z' s' where
    IH: "z = (z0 @ [(format_06d idx @ ''.'' @ ext, buf)]) @ z'" "s = (s0 @ [(w, h)]) @ s'"
        "length z' = length images" "length s' = length images"
        "list_all2 (\<lambda>item (size, member).
              (if dimension_flag self = Some DIM_2D
               then compress_image lib (fst item) (image_quality self)
               else pcd_image py_int fs (fst item)) = Inr (fst size, snd size, snd member))
             images (zip s' z')"
    by blast
  show ?case
    apply (rule exI [of _ "(format_06d idx @ ''.'' @ ext, buf) # z'"])
    apply (rule exI [of _ "(w, h) # s'"])
    using IH one item by (auto split: if_splits)
qed

lemma mpeg4_save:
  assumes "output_fps self = Some rate"
  shows "map_sum id snd (Mpeg4ChunkWriter_save_as_chunk self ((first, src, idx) # images) chunk_path)
           = Inr [(frame_width first, frame_height first)]"
  using assms by (simp add: Mpeg4ChunkWriter_save_as_chunk_def Let_def)

lemma original_fps: "output_fps (Mpeg4ChunkWriter_init q) = Some 25"
  by (simp add: Mpeg4ChunkWriter_init_def IChunkWriter_init_def)

text \<open>
  C6, as amended. When \<^verbatim>\<open>ZipChunkWriter.save_as_chunk\<close> returns, its list of sizes is
  empty. When \<^verbatim>\<open>ZipCompressedChunkWriter.save_as_chunk\<close> returns, the list has one pair
  for each frame, in the order of the frames, and each pair is the width and height that
  the encoding of that frame gave together with the bytes stored for it. The two video
  writers return a list of one pair whatever the number of frames: the width and height of
  the first input frame, before any downscaling or rounding to even numbers.
\<close>

theorem save_as_chunk_sizes:
  "(ZipChunkWriter_save_as_chunk fs archive stored chunk_path = Inr (z, sizes) \<longrightarrow> sizes = [])
   \<and> (ZipCompressedChunkWriter_save_as_chunk lib py_int fs compressed_archive frames chunk_path
         = Inr (cz, csizes) \<longrightarrow>
        length csizes = length frames \<and> length cz = length frames \<and>
        list_all2 (\<lambda>item (size, member).
             (if dimension_flag compressed_archive = Some DIM_2D
              then compress_image lib (fst item) (image_quality compressed_archive)
              else pcd_image py_int fs (fst item)) = Inr (fst size, snd size, snd member))
          frames (zip csizes cz))
   \<and> map_sum id snd
        (Mpeg4ChunkWriter_save_as_chunk (Mpeg4ChunkWriter_init q) ((first, src, idx) # images)
           video_path)
       = Inr [(frame_width first, frame_height first)]
   \<and> map_option (map_sum id snd)
        (Mpeg4CompressedChunkWriter_save_as_chunk (Mpeg4CompressedChunkWriter_init q)
           ((first, src, idx) # images) video_path)
       = Some (Inr [(frame_width first, frame_height first)])"
proof -
  have a: "ZipChunkWriter_save_as_chunk fs archive stored chunk_path = Inr (z, sizes) \<longrightarrow> sizes = []"
    using zip_chunk_sizes by blast
  have b: "ZipCompressedChunkWriter_save_as_chunk lib py_int fs compressed_archive frames chunk_path
         = Inr (cz, csizes) \<longrightarrow>
        length csizes = length frames \<and> length cz = length frames \<and>
        list_all2 (\<lambda>item (size, member).
             (if dimension_flag compressed_archive = Some DIM_2D
              then compress_image lib (fst item) (image_quality compressed_archive)
              else pcd_image py_int fs (fst item)) = Inr (fst size, snd size, snd member))
          frames (zip csizes cz)"
  proof
    assume "ZipCompressedChunkWriter_save_as_chunk lib py_int fs compressed_archive frames chunk_path
         = Inr (cz, csizes)"
    then have "zip_compress lib py_int fs compressed_archive frames 0 [] [] = Inr (cz, csizes)"
      by (simp add: ZipCompressedChunkWriter_save_as_chunk_def split: if_splits)
    from zip_compress_spec [OF this] show "length csizes = length frames \<and> length cz = length frames \<and>
        list_all2 (\<lambda>item (size, member).
             (if dimension_flag compressed_archive = Some DIM_2D
              then compress_image lib (fst item) (image_quality compressed_archive)
              else pcd_image py_int fs (fst item)) = Inr (fst size, snd size, snd member))
          frames (zip csizes cz)"
      by auto
  qed
  have c: "map_sum id snd
        (Mpeg4ChunkWriter_save_as_chunk (Mpeg4ChunkWriter_init q) ((first, src, idx) # images)
           video_path)
       = Inr [(frame_width first, frame_height first)]"
    by (rule mpeg4_save [OF original_fps])
  obtain k where k: "downscale_loop (frame_height first) 1 = Some (2 ^ k)"
    using downscale_loop_returns [of 1 "frame_height first"] by auto
  obtain c where "Mpeg4CompressedChunkWriter_save_as_chunk (Mpeg4CompressedChunkWriter_init q)
              ((first, src, idx) # images) video_path
               = Some (Inr (c, [(frame_width first, frame_height first)]))"
    using mpeg4_compressed_save [where self = "Mpeg4CompressedChunkWriter_init q" and src = src
        and idx = idx and images = images and chunk_path = video_path, OF k compressed_fps]
    by blast
  then have d: "map_option (map_sum id snd)
        (Mpeg4CompressedChunkWriter_save_as_chunk (Mpeg4CompressedChunkWriter_init q)
           ((first, src, idx) # images) video_path)
       = Some (Inr [(frame_width first, frame_height first)])"
    by simp
  from a b c d show ?thesis by blast
qed

text \<open>
  C6 as stated fails for the video writers: two frames of 1922 by 1080 give one pair, and
  the pair is the input size, while both frames are encoded at 962 by 540.
\<close>

theorem save_as_chunk_sizes_counterexample:
  "map_option (map_sum id snd)
     (Mpeg4CompressedChunkWriter_save_as_chunk (Mpeg4CompressedChunkWriter_init 70)
        [(sample_frame, ''video.mp4'', 0 :: int), (sample_frame, ''video.mp4'', 1)] ''chunk.mp4'')
   = Some (Inr [(1922, 1080)])
   \<and> map_option (map_sum id (length \<circ> av_encoded \<circ> fst))
     (Mpeg4CompressedChunkWriter_save_as_chunk (Mpeg4CompressedChunkWriter_init 70)
        [(sample_frame, ''video.mp4'', 0 :: int), (sample_frame, ''video.mp4'', 1)] ''chunk.mp4'')
   = Some (Inr 2)
   \<and> map_option (map_sum id (av_width \<circ> fst))
     (Mpeg4CompressedChunkWriter_save_as_chunk (Mpeg4CompressedChunkWriter_init 70)
        [(sample_frame, ''video.mp4'', 0 :: int), (sample_frame, ''video.mp4'', 1)] ''chunk.mp4'')
   = Some (Inr 962)
   \<and> map_option (map_sum id (av_height \<circ> fst))
     (Mpeg4CompressedChunkWriter_save_as_chunk (Mpeg4CompressedChunkWriter_init 70)
        [(sample_frame, ''video.mp4'', 0 :: int), (sample_frame, ''video.mp4'', 1)] ''chunk.mp4'')
   = Some (Inr 540)"
  by (simp add: Mpeg4CompressedChunkWriter_save_as_chunk_def sample_frame_def sample_loop
      Mpeg4CompressedChunkWriter_init_def Let_def create_av_container_def)

lemma format_06d_0: "format_06d 0 = ''000000''"
  by code_simp

lemma sample_zip_chunk:
  "ZipChunkWriter_save_as_chunk no_files (IChunkWriter_init 100 DIM_2D)
     [(BytesIO ''abc'' :: unit media, ''a.jpg'', 0 :: int)] ''chunk.zip''
   = Inr ([(''000000.jpg'', ''abc'')], [])"
  by (simp add: ZipChunkWriter_save_as_chunk_def no_files_def format_06d_0 splitext_def Let_def)

lemma sample_zip_compressed:
  "ZipCompressedChunkWriter_save_as_chunk sample_imaging decimal_int no_files
     (IChunkWriter_init 70 DIM_2D) [(Frame sample_frame, ''v.mp4'', 0 :: int)] ''chunk.zip''
   = Inr ([(''000000.jpeg'', ''jpeg'')], [(1922, 1080)])"
  by (simp add: ZipCompressedChunkWriter_save_as_chunk_def no_files_def format_06d_0
      IChunkWriter_init_def compress_image_def sample_imaging_def sample_frame_def)

theorem save_as_chunk_sizes_witness:
  "ZipChunkWriter_save_as_chunk no_files (IChunkWriter_init 100 DIM_2D)
     [(BytesIO ''abc'' :: unit media, ''a.jpg'', 0 :: int)] ''chunk.zip''
   = Inr ([(''000000.jpg'', ''abc'')], [])
   \<and> ZipCompressedChunkWriter_save_as_chunk sample_imaging decimal_int no_files
     (IChunkWriter_init 70 DIM_2D) [(Frame sample_frame, ''v.mp4'', 0 :: int)] ''chunk.zip''
   = Inr ([(''000000.jpeg'', ''jpeg'')], [(1922, 1080)])
   \<and> length [(1922 :: int, 1080 :: int)] = length [(Frame sample_frame, ''v.mp4'', 0 :: int)]
   \<and> compress_image sample_imaging (Frame sample_frame) 70 = Inr (1922, 1080, ''jpeg'')
   \<and> map_sum id snd
        (Mpeg4ChunkWriter_save_as_chunk (Mpeg4ChunkWriter_init 70)
           [(sample_frame, ''v.mp4'', 0 :: int), (sample_frame, ''v.mp4'', 1)] ''chunk.mp4'')
       = Inr [(1922, 1080)]"
proof -
  note t = save_as_chunk_sizes [where fs = no_files and archive = "IChunkWriter_init 100 DIM_2D"
      and stored = "[(BytesIO ''abc'' :: unit media, ''a.jpg'', 0 :: int)]"
      and chunk_path = "''chunk.zip''" and z = "[(''000000.jpg'', ''abc'')]" and sizes = "[]"
      and lib = sample_imaging and py_int = decimal_int
      and compressed_archive = "IChunkWriter_init 70 DIM_2D"
      and frames = "[(Frame sample_frame, ''v.mp4'', 0 :: int)]"
      and cz = "[(''000000.jpeg'', ''jpeg'')]" and csizes = "[(1922, 1080)]"
      and q = 70 and first = sample_frame and src = "''v.mp4''" and idx = "0 :: int"
      and images = "[(sample_frame, ''v.mp4'', 1)]" and video_path = "''chunk.mp4''"]
  from t sample_zip_compressed
  have "length [(1922 :: int, 1080 :: int)] = length [(Frame sample_frame, ''v.mp4'', 0 :: int)]
     \<and> compress_image sample_imaging (Frame sample_frame) 70 = Inr (1922, 1080, ''jpeg'')"
    by (simp add: IChunkWriter_init_def)
  moreover from t have "map_sum id snd
        (Mpeg4ChunkWriter_save_as_chunk (Mpeg4ChunkWriter_init 70)
           [(sample_frame, ''v.mp4'', 0 :: int), (sample_frame, ''v.mp4'', 1)] ''chunk.mp4'')
       = Inr [(1922, 1080)]"
    by (simp add: sample_frame_def)
  ultimately show ?thesis using sample_zip_chunk sample_zip_compressed by blast
qed


section \<open>Properties of the point-cloud header parser\<close>

text \<open>
  Lines that decode and are comments, or have a space and no \<^verbatim>\<open>DATA\<close>, are read one
  after the other, each line that is not a comment adding its key and stripped value.
\<close>

lemma pcd_read_lines_header:
  assumes "\<forall>b \<in> set pre. utf8_valid b \<and>
             (startswith b ''#'' \<or> (CHR '' '' \<in> set b \<and> \<not> contains b ''DATA''))"
  shows "pcd_read_lines (map Bytes pre @ fp) kv =
         pcd_read_lines fp
           (foldl (\<lambda>kv b. case split_once CHR '' '' b of
                              None \<Rightarrow> kv | Some (k, v) \<Rightarrow> dict_set kv k (py_strip v))
              kv (filter (\<lambda>b. \<not> startswith b ''#'') pre))"
  using assms
proof (induction pre arbitrary: kv)
  case Nil
  then show ?case by simp
next
  case (Cons b pre)
  then have valid: "utf8_valid b"
    and shape: "startswith b ''#'' \<or> (CHR '' '' \<in> set b \<and> \<not> contains b ''DATA'')"
    and rest: "\<forall>b \<in> set pre. utf8_valid b \<and>
             (startswith b ''#'' \<or> (CHR '' '' \<in> set b \<and> \<not> contains b ''DATA''))"
    by simp_all
  show ?case
  proof (cases "startswith b ''#''")
    case True
    with valid Cons.IH [OF rest] show ?thesis by (simp add: decode_utf8_def)
  next
    case False
    with shape have sp: "CHR '' '' \<in> set b" and nd: "\<not> contains b ''DATA''" by simp_all
    from sp obtain k v where kv: "split_once CHR '' '' b = Some (k, v)"
      by (simp add: split_once_def)
    with valid False nd Cons.IH [OF rest] show ?thesis
      by (simp add: decode_utf8_def Let_def)
  qed
qed

text \<open>
  On a header whose lines are well formed \<^verbatim>\<open>get_pcd_properties\<close> reads the lines up to
  and including the first line, not a comment, that contains \<^verbatim>\<open>DATA\<close>, and no further;
  each line that is not a comment is split at its first space into a key and a value,
  stored stripped; without such a line it reads all the lines. When a line it reaches is
  not a byte string, so that it has no \<^verbatim>\<open>decode\<close>, it returns \<^verbatim>\<open>None\<close>.
\<close>

lemma pcd_header_well_formed:
  assumes "\<forall>b \<in> set pre. utf8_valid b \<and>
             (startswith b ''#'' \<or> (CHR '' '' \<in> set b \<and> \<not> contains b ''DATA''))"
    and "utf8_valid d" and "\<not> startswith d ''#''" and "split_once CHR '' '' d = Some (k, v)"
    and "contains d ''DATA''"
  shows "get_pcd_properties (map Bytes pre @ Bytes d # fp) False =
           Inr (PcdProps
             (dict_set
               (foldl (\<lambda>kv b. case split_once CHR '' '' b of
                                  None \<Rightarrow> kv | Some (k, v) \<Rightarrow> dict_set kv k (py_strip v))
                  [] (filter (\<lambda>b. \<not> startswith b ''#'') pre))
               k (py_strip v)))
       \<and> get_pcd_properties (map Bytes pre) False =
           Inr (PcdProps
             (foldl (\<lambda>kv b. case split_once CHR '' '' b of
                                None \<Rightarrow> kv | Some (k, v) \<Rightarrow> dict_set kv k (py_strip v))
                [] (filter (\<lambda>b. \<not> startswith b ''#'') pre)))
       \<and> get_pcd_properties (map Bytes pre @ Text t # fp) verify_version = Inr PcdNone"
proof -
  have a: "get_pcd_properties (map Bytes pre @ Bytes d # fp) False =
           Inr (PcdProps
             (dict_set
               (foldl (\<lambda>kv b. case split_once CHR '' '' b of
                                  None \<Rightarrow> kv | Some (k, v) \<Rightarrow> dict_set kv k (py_strip v))
                  [] (filter (\<lambda>b. \<not> startswith b ''#'') pre))
               k (py_strip v)))"
    using assms(2-5)
    by (simp add: get_pcd_properties_def pcd_read_lines_header [OF assms(1)] decode_utf8_def
        Let_def)
  have "pcd_read_lines (map Bytes pre @ []) [] =
          Inr (foldl (\<lambda>kv b. case split_once CHR '' '' b of
                                None \<Rightarrow> kv | Some (k, v) \<Rightarrow> dict_set kv k (py_strip v))
                [] (filter (\<lambda>b. \<not> startswith b ''#'') pre))"
    by (simp only: pcd_read_lines_header [OF assms(1)] pcd_read_lines.simps)
  then have b: "get_pcd_properties (map Bytes pre) False =
           Inr (PcdProps
             (foldl (\<lambda>kv b. case split_once CHR '' '' b of
                                None \<Rightarrow> kv | Some (k, v) \<Rightarrow> dict_set kv k (py_strip v))
                [] (filter (\<lambda>b. \<not> startswith b ''#'') pre)))"
    by (simp add: get_pcd_properties_def)
  have c: "get_pcd_properties (map Bytes pre @ Text t # fp) verify_version = Inr PcdNone"
    by (simp add: get_pcd_properties_def pcd_read_lines_header [OF assms(1)])
  from a b c show ?thesis by blast
qed



lemma pcd_header_sample:
  "get_pcd_properties
     (map Bytes [''# .PCD v0.7\<newline>'', ''VERSION 0.7\<newline>'', ''WIDTH 10\<newline>'']
        @ Bytes ''DATA ascii\<newline>'' # [Bytes ''1 2 3\<newline>'', Bytes ''garbage'']) False
     = Inr (PcdProps [(''VERSION'', ''0.7''), (''WIDTH'', ''10''), (''DATA'', ''ascii'')])
   \<and> get_pcd_properties
     (map Bytes [''# .PCD v0.7\<newline>'', ''VERSION 0.7\<newline>'', ''WIDTH 10\<newline>'']
        @ Text ''DATA ascii\<newline>'' # [Bytes ''1 2 3\<newline>'', Bytes ''garbage'']) True
     = Inr PcdNone"
proof -
  have h1: "\<forall>b \<in> set [''# .PCD v0.7\<newline>'', ''VERSION 0.7\<newline>'', ''WIDTH 10\<newline>''].
      utf8_valid b \<and> (startswith b ''#'' \<or> (CHR '' '' \<in> set b \<and> \<not> contains b ''DATA''))"
    by code_simp
  have h2: "utf8_valid ''DATA ascii\<newline>''" by code_simp
  have h3: "\<not> startswith ''DATA ascii\<newline>'' ''#''" by code_simp
  have h4: "split_once CHR '' '' ''DATA ascii\<newline>'' = Some (''DATA'', ''ascii\<newline>'')"
    by code_simp
  have h5: "contains ''DATA ascii\<newline>'' ''DATA''" by code_simp
  have e: "dict_set
               (foldl (\<lambda>kv b. case split_once CHR '' '' b of
                                  None \<Rightarrow> kv | Some (k, v) \<Rightarrow> dict_set kv k (py_strip v))
                  [] (filter (\<lambda>b. \<not> startswith b ''#'')
                        [''# .PCD v0.7\<newline>'', ''VERSION 0.7\<newline>'', ''WIDTH 10\<newline>'']))
               ''DATA'' (py_strip ''ascii\<newline>'')
           = [(''VERSION'', ''0.7''), (''WIDTH'', ''10''), (''DATA'', ''ascii'')]"
    by code_simp
  from pcd_header_well_formed [OF h1 h2 h3 h4 h5,
      where fp = "[Bytes ''1 2 3\<newline>'', Bytes ''garbage'']" and t = "''DATA ascii\<newline>''"
        and verify_version = True]
  show ?thesis
    unfolding e by blast
qed


text \<open>
  C7, which the code does not meet. The claim asks for \<^verbatim>\<open>None\<close> on every header with a
  line that cannot be decoded or split, and \<^verbatim>\<open>pcd_operation\<close> is written for that answer:
  it takes a file that is no point cloud for an image. But only \<^verbatim>\<open>AttributeError\<close> is
  caught, which a byte line never raises. A byte line without a space raises
  \<^verbatim>\<open>ValueError\<close> and a byte line that is not UTF-8 raises \<^verbatim>\<open>UnicodeDecodeError\<close>, and
  \<^verbatim>\<open>validate\<close> over a tree with such a file raises with it, while a header of an unknown
  version does take the way of an image and the walk ends normally.
\<close>

theorem pcd_malformed_header_raises:
  "get_pcd_properties [Bytes ''VERSION 0.7\<newline>'', Bytes ''WIDTH\<newline>''] False = Inl ValueError
   \<and> get_pcd_properties [Bytes ''VERSION 0.7\<newline>'', Bytes ''WIDTH\<newline>''] True = Inl ValueError
   \<and> get_pcd_properties [Bytes [CHR 0xFF, CHR 0x20, CHR 0x31]] False = Inl UnicodeDecodeError
   \<and> validate malformed_env (ValidateDimension_init (Some ''/ds''), ()) = Inl ValueError
   \<and> validate unknown_version_env (ValidateDimension_init (Some ''/ds''), ())
       = Inr (\<lparr>dimension = DIM_2D, path = Some ''/ds'', related_files = [],
               image_files = [(''c'', ''/ds/c.jpg'')], converted_files = []\<rparr>, ())"
  by code_simp


section \<open>Properties of the image list reader\<close>

text \<open>
  For a positive step the range is the arithmetic progression from its start, as long as
  it stays below its stop; the number of its members is a ceiling.
\<close>

lemma range_up_map:
  assumes "0 < step"
  shows "range_up i stop step =
           map (\<lambda>k. i + int k * step) [0..<nat (- ((i - stop) div step))]"
  using assms
proof (induction i stop step rule: range_up.induct)
  case (1 i stop step)
  show ?case
  proof (cases "i < stop")
    case False
    then have "0 \<le> (i - stop) div step"
      using "1.prems" by (simp add: pos_imp_zdiv_nonneg_iff)
    with False "1.prems" show ?thesis
      by (subst range_up.simps) simp
  next
    case True
    have step: "(i + step - stop) div step = (i - stop) div step + 1"
    proof -
      have "i + step - stop = (i - stop) + step" by simp
      then show ?thesis using "1.prems" by (simp only: div_add_self2)
    qed
    have neg: "(i - stop) div step < 0"
      using True "1.prems" by (simp add: pos_imp_zdiv_neg_iff)
    define m where "m = nat (- ((i - stop) div step) - 1)"
    have n: "nat (- ((i - stop) div step)) = Suc m"
      using neg by (simp add: m_def)
    have m: "nat (- ((i + step - stop) div step)) = m"
      by (simp add: step m_def)
    have "range_up i stop step = i # range_up (i + step) stop step"
      using True "1.prems" by (subst range_up.simps) simp
    also have "range_up (i + step) stop step =
                 map (\<lambda>k. i + step + int k * step) [0..<m]"
      using "1.IH" True "1.prems" m by simp
    also have "i # map (\<lambda>k. i + step + int k * step) [0..<m] =
                 map (\<lambda>k. i + int k * step) [0..<Suc m]"
      by (simp add: upt_conv_Cons map_Suc_upt [symmetric] del: upt_Suc) (simp add: algebra_simps)
    finally show ?thesis by (simp only: n)
  qed
qed

lemma ceiling_div:
  assumes "0 < step"
  shows "\<lceil>real_of_int (stop - i) / real_of_int step\<rceil> = - ((i - stop) div step)"
proof -
  have "- real_of_int (stop - i) = real_of_int (i - stop)"
    by simp
  then have "- (real_of_int (stop - i) / real_of_int step) = real_of_int (i - stop) / real_of_int step"
    by (simp only: minus_divide_left)
  then have "\<lfloor>- (real_of_int (stop - i) / real_of_int step)\<rfloor> = (i - stop) div step"
    by (simp only: floor_divide_of_int_eq)
  then show ?thesis by (simp only: ceiling_def)
qed

lemma range_members:
  fixes step :: int
  assumes "0 < step"
  shows "x \<in> set (map (\<lambda>k. i + int k * step) [0..<nat (- ((i - stop) div step))])
         \<longleftrightarrow> (\<exists>k. x = i + int k * step \<and> x < stop)"
proof -
  have bound: "i + int k * step < stop \<longleftrightarrow> k < nat (- ((i - stop) div step))" for k
  proof -
    have "i + int k * step < stop \<longleftrightarrow> (i - stop) + int k * step < 0" by linarith
    also have "\<dots> \<longleftrightarrow> ((i - stop) + int k * step) div step < 0"
      by (simp only: pos_imp_zdiv_neg_iff [OF assms])
    also have "((i - stop) + int k * step) div step = (i - stop) div step + int k"
      using assms by simp
    also have "(i - stop) div step + int k < 0 \<longleftrightarrow> k < nat (- ((i - stop) div step))"
      by linarith
    finally show ?thesis .
  qed
  show ?thesis
  proof
    assume "x \<in> set (map (\<lambda>k. i + int k * step) [0..<nat (- ((i - stop) div step))])"
    then obtain k where "k < nat (- ((i - stop) div step))" and "x = i + int k * step"
      by auto
    with bound show "\<exists>k. x = i + int k * step \<and> x < stop" by blast
  next
    assume "\<exists>k. x = i + int k * step \<and> x < stop"
    then obtain k where k: "x = i + int k * step" "x < stop" by blast
    with bound have "k < nat (- ((i - stop) div step))" by blast
    with k(1) show "x \<in> set (map (\<lambda>k. i + int k * step) [0..<nat (- ((i - stop) div step))])"
      by (auto intro!: image_eqI [of _ _ k])
  qed
qed

lemma range_sorted:
  assumes "0 < (step :: int)"
  shows "sorted_wrt (<) (map (\<lambda>k. i + int k * step) [0..<n])"
    and "distinct (map (\<lambda>k. i + int k * step) [0..<n])"
proof -
  show s: "sorted_wrt (<) (map (\<lambda>k. i + int k * step) [0..<n])"
    using assms by (simp add: sorted_wrt_map sorted_wrt_iff_nth_less)
  then show "distinct (map (\<lambda>k. i + int k * step) [0..<n])"
    using strict_sorted_iff by blast
qed


lemma py_index_in_range:
  assumes "- int (length xs) \<le> i" and "i < int (length xs)"
  shows "\<exists>x. py_index xs i = Inr x"
  using assms by (simp add: py_index_def)

lemma yield_indices:
  assumes "\<forall>i \<in> set r. - int (length (reader_source_path self)) \<le> i
              \<and> i < int (length (reader_source_path self))"
  shows "map (\<lambda>item. snd (snd item)) (fst (ImageListReader_yield self r)) = r
       \<and> snd (ImageListReader_yield self r) = None"
  using assms
proof (induction r)
  case Nil
  then show ?case by simp
next
  case (Cons i r)
  from Cons.prems obtain x where x: "py_index (reader_source_path self) i = Inr x"
    using py_index_in_range [of "reader_source_path self" i] by auto
  from Cons.prems have "\<forall>i \<in> set r. - int (length (reader_source_path self)) \<le> i
              \<and> i < int (length (reader_source_path self))" by simp
  from Cons.IH [OF this] have IH: "map (\<lambda>item. snd (snd item)) (fst (ImageListReader_yield self r)) = r"
      "snd (ImageListReader_yield self r) = None" by blast+
  obtain items err where y: "ImageListReader_yield self r = (items, err)"
    by (cases "ImageListReader_yield self r")
  with IH have "map (\<lambda>item. snd (snd item)) items = r" and "err = None" by simp_all
  with x y show ?case
    by (simp add: get_image_def get_path_def)
qed

text \<open>
  What the constructor and the range do for any step and start: the step that counts is
  \<open>max step 1\<close>, and iterating reaches every index when \<open>start\<close> is not below minus the
  number of paths.
\<close>

lemma image_list_reader_range:
  assumes "ImageListReader_init paths step start stop = Inr r"
    and "e = (case stop of None \<Rightarrow> int (length paths)
                          | Some s \<Rightarrow> min (int (length paths)) (s + 1))"
    and "st = max step 1"
    and "frames = map (\<lambda>k. start + int k * st)
                    [0..<nat \<lceil>real_of_int (e - start) / real_of_int st\<rceil>]"
  shows "reader_stop r = Some e \<and> reader_step r = st \<and> reader_start r = start
       \<and> frame_range r = Inr frames
       \<and> (\<forall>i. i \<in> set frames \<longleftrightarrow> (\<exists>k. i = start + int k * st \<and> i < e))
       \<and> sorted_wrt (<) frames \<and> distinct frames
       \<and> int (length frames) = \<lceil>real_of_int (e - start) / real_of_int st\<rceil>
       \<and> (- int (length paths) \<le> start \<longrightarrow>
            map (\<lambda>item. snd (snd item)) (fst (ImageListReader_iter r)) = frames
            \<and> snd (ImageListReader_iter r) = None)"
proof -
  have st: "0 < st" using assms(3) by simp
  from assms(1) have ne: "paths \<noteq> []"
    by (auto simp: ImageListReader_init_def split: if_splits)
  from assms(1,2,3) ne have lt: "start < e"
    and r: "r = IMediaReader_init paths st start (Some e)"
    by (auto simp: ImageListReader_init_def Let_def split: if_splits)
  have fields: "reader_stop r = Some e" "reader_step r = st" "reader_start r = start"
    "reader_source_path r = sort paths"
    by (simp_all add: r IMediaReader_init_def)
  have ceil: "\<lceil>real_of_int (e - start) / real_of_int st\<rceil> = - ((start - e) div st)"
    by (rule ceiling_div [OF st])
  have frames: "frames = map (\<lambda>k. start + int k * st) [0..<nat (- ((start - e) div st))]"
    using assms(4) by (simp only: ceil)
  have up: "range_up start e st = frames"
    by (simp only: frames range_up_map [OF st])
  have range: "py_range start e st = Inr frames"
    using st up by (simp add: py_range_def)
  then have fr: "frame_range r = Inr frames"
    by (simp add: frame_range_def fields)
  have mem: "\<forall>i. i \<in> set frames \<longleftrightarrow> (\<exists>k. i = start + int k * st \<and> i < e)"
    unfolding frames using range_members [OF st] by blast
  have sorted: "sorted_wrt (<) frames" and distinct: "distinct frames"
    unfolding frames using range_sorted [OF st] by blast+
  have "(start - e) div st < 0"
    using lt st by (simp add: pos_imp_zdiv_neg_iff)
  then have "int (length frames) = - ((start - e) div st)"
    by (simp add: frames)
  then have len: "int (length frames) = \<lceil>real_of_int (e - start) / real_of_int st\<rceil>"
    by (simp only: ceil)
  have e_le: "e \<le> int (length paths)"
    using assms(2) by (simp split: option.splits)
  have iter: "map (\<lambda>item. snd (snd item)) (fst (ImageListReader_iter r)) = frames
            \<and> snd (ImageListReader_iter r) = None" if lo: "- int (length paths) \<le> start"
  proof -
    have "\<forall>i \<in> set frames. - int (length (reader_source_path r)) \<le> i
              \<and> i < int (length (reader_source_path r))"
    proof
      fix i assume "i \<in> set frames"
      with mem obtain k where "i = start + int k * st" "i < e" by blast
      moreover have "0 \<le> int k * st" using st by simp
      ultimately show "- int (length (reader_source_path r)) \<le> i
              \<and> i < int (length (reader_source_path r))"
        using lo e_le by (simp add: fields)
    qed
    from yield_indices [OF this] show ?thesis
      by (simp add: ImageListReader_iter_def fields range)
  qed
  from fields fr mem sorted distinct len iter show ?thesis by blast
qed



text \<open>
  C1. For every \<^verbatim>\<open>ImageListReader\<close> constructed from a list of paths (it is not empty
  then) with a step of at least one and a start that is not negative, as a frame range
  has them: the effective stop \<open>e\<close> is the number of paths when \<open>stop\<close> is \<^verbatim>\<open>None\<close> and
  the smaller of that number and \<open>stop + 1\<close> otherwise; iterating yields exactly the
  indices \<open>start, start + step, start + 2 * step, \<dots>\<close> below \<open>e\<close>, in strictly increasing
  order and without duplicates, and ends normally; and \<^verbatim>\<open>len\<close> returns the ceiling of
  \<open>(e - start) / step\<close>. The number of paths is at most \<^verbatim>\<open>sys.maxsize\<close>, as the length
  of every list is.
\<close>

theorem image_list_reader_frames:
  assumes "ImageListReader_init paths step start stop = Inr r"
    and "1 \<le> step" and "0 \<le> start"
    and "int (length paths) \<le> sys_maxsize"
    and "e = (case stop of None \<Rightarrow> int (length paths)
                          | Some s \<Rightarrow> min (int (length paths)) (s + 1))"
    and "frames = map (\<lambda>k. start + int k * step)
                    [0..<nat \<lceil>real_of_int (e - start) / real_of_int step\<rceil>]"
  shows "reader_stop r = Some e
       \<and> frame_range r = Inr frames
       \<and> map (\<lambda>item. snd (snd item)) (fst (ImageListReader_iter r)) = frames
       \<and> snd (ImageListReader_iter r) = None
       \<and> (\<forall>i. i \<in> set frames \<longleftrightarrow> (\<exists>k. i = start + int k * step \<and> i < e))
       \<and> sorted_wrt (<) frames \<and> distinct frames
       \<and> IMediaReader_len r = Inr \<lceil>real_of_int (e - start) / real_of_int step\<rceil>"
proof -
  have st: "step = max step 1" using assms(2) by simp
  note g = image_list_reader_range [OF assms(1) assms(5) st assms(6)]
  have lo: "- int (length paths) \<le> start" using assms(3) by simp
  from g lo have iter: "map (\<lambda>item. snd (snd item)) (fst (ImageListReader_iter r)) = frames"
      "snd (ImageListReader_iter r) = None"
    by blast+
  from g have fr: "frame_range r = Inr frames"
    and n: "int (length frames) = \<lceil>real_of_int (e - start) / real_of_int step\<rceil>"
    by blast+
  have e_le: "e \<le> int (length paths)"
    using assms(5) by (simp split: option.splits)
  have "real_of_int (e - start) / real_of_int step \<le> real_of_int (e - start)"
    if "0 \<le> e - start"
  proof -
    have "real_of_int (e - start) / real_of_int step \<le> real_of_int (e - start) / 1"
      using that assms(2) by (intro divide_left_mono) simp_all
    then show ?thesis by simp
  qed
  moreover have "real_of_int (e - start) / real_of_int step \<le> 0" if "\<not> 0 \<le> e - start"
    using that assms(2) by (simp add: divide_le_0_iff)
  ultimately have "\<lceil>real_of_int (e - start) / real_of_int step\<rceil> \<le> max (e - start) 0"
    by (cases "0 \<le> e - start") (simp_all add: ceiling_le)
  with n e_le assms(3,4) have "int (length frames) \<le> sys_maxsize" by simp
  with fr n have len: "IMediaReader_len r
      = Inr \<lceil>real_of_int (e - start) / real_of_int step\<rceil>"
    by (simp add: IMediaReader_len_def)
  from g iter fr len show ?thesis by blast
qed

lemma sample_sort: "sort [''b'', ''a'', ''c'', ''e'', ''d''] = [''a'', ''b'', ''c'', ''d'', ''e'']"
  by code_simp

lemma sample_reader:
  "ImageListReader_init [''b'', ''a'', ''c'', ''e'', ''d''] 2 1 (Some 3)
     = Inr \<lparr>reader_source_path = [''a'', ''b'', ''c'', ''d'', ''e''], reader_step = 2,
            reader_start = 1, reader_stop = Some 4\<rparr>"
  by (simp add: ImageListReader_init_def IMediaReader_init_def sample_sort)

theorem image_list_reader_frames_witness:
  "ImageListReader_init [''b'', ''a'', ''c'', ''e'', ''d''] 2 1 (Some 3)
     = Inr \<lparr>reader_source_path = [''a'', ''b'', ''c'', ''d'', ''e''], reader_step = 2,
            reader_start = 1, reader_stop = Some 4\<rparr>
   \<and> (1 :: int) \<le> 2 \<and> (0 :: int) \<le> 1
   \<and> int (length [''b'', ''a'', ''c'', ''e'', ''d'']) \<le> sys_maxsize
   \<and> frame_range \<lparr>reader_source_path = [''a'', ''b'', ''c'', ''d'', ''e''], reader_step = 2,
                    reader_start = 1, reader_stop = Some 4\<rparr> = Inr [1, 3]
   \<and> IMediaReader_len \<lparr>reader_source_path = [''a'', ''b'', ''c'', ''d'', ''e''], reader_step = 2,
                    reader_start = 1, reader_stop = Some 4\<rparr> = Inr 2
   \<and> map (\<lambda>item. snd (snd item))
        (fst (ImageListReader_iter \<lparr>reader_source_path = [''a'', ''b'', ''c'', ''d'', ''e''],
                reader_step = 2, reader_start = 1, reader_stop = Some 4\<rparr>)) = [1, 3]
   \<and> snd (ImageListReader_iter \<lparr>reader_source_path = [''a'', ''b'', ''c'', ''d'', ''e''],
                reader_step = 2, reader_start = 1, reader_stop = Some 4\<rparr>) = None"
proof -
  have h2: "(1 :: int) \<le> 2" and h3: "(0 :: int) \<le> 1" by simp_all
  have h4: "int (length [''b'', ''a'', ''c'', ''e'', ''d'']) \<le> sys_maxsize"
    by (simp add: sys_maxsize_def)
  have e: "(4 :: int) = (case Some 3 of None \<Rightarrow> int (length [''b'', ''a'', ''c'', ''e'', ''d''])
                          | Some s \<Rightarrow> min (int (length [''b'', ''a'', ''c'', ''e'', ''d''])) (s + 1))"
    by simp
  have c: "\<lceil>real_of_int (4 - 1) / real_of_int 2\<rceil> = 2" by simp
  have frames: "[1, 3] = map (\<lambda>k. 1 + int k * 2)
                    [0..<nat \<lceil>real_of_int (4 - 1) / real_of_int 2\<rceil>]"
    unfolding c by (simp add: upt_conv_Cons)
  from image_list_reader_frames [OF sample_reader h2 h3 h4 e frames] c sample_reader h4
  show ?thesis by simp
qed


section \<open>Properties of the video reader\<close>

text \<open>
  With a step that is not zero \<^verbatim>\<open>_has_frame\<close> never raises. Where, in addition, the
  reader has a source path and the rotation of every video packet can be read, the
  generator \<^verbatim>\<open>_decode\<close> ends normally and yields, in order, the frames at the selected
  positions, each rotated as its packet asks, with the first source path and the
  timestamp of the decoded frame.
\<close>

lemma has_frame_eq:
  assumes "reader_step self \<noteq> 0"
  shows "has_frame self i =
           Inr (reader_start self \<le> i \<and> (i - reader_start self) mod reader_step self = 0
                \<and> (case reader_stop self of None \<Rightarrow> True | Some stop \<Rightarrow> i < stop))"
  using assms by (simp add: has_frame_def split: option.splits)

lemma rotated_pts: "frame_pts (rotated lib angle img) = frame_pts img"
  by (simp add: rotated_def split: option.splits)

lemma decode_frame_eq:
  assumes "reader_step self \<noteq> 0" and "reader_source_path self = x # xs"
    and "rotation_angle lib container packet = Inr angle"
  shows "decode_frame lib self container packet img (int (Suc m)) =
           Inr (if reader_start self \<le> int m
                   \<and> (int m - reader_start self) mod reader_step self = 0
                   \<and> (case reader_stop self of None \<Rightarrow> True | Some stop \<Rightarrow> int m < stop)
                then Some (rotated lib angle img, x, frame_pts img) else None)"
proof (cases "reader_start self \<le> int m
                   \<and> (int m - reader_start self) mod reader_step self = 0
                   \<and> (case reader_stop self of None \<Rightarrow> True | Some stop \<Rightarrow> int m < stop)")
  case True
  then have "has_frame self (int (Suc m) - 1) = Inr True"
    by (simp add: has_frame_eq [OF assms(1)])
  with True assms(2,3) show ?thesis
    by (simp add: decode_frame_def rotated_pts Let_def)
next
  case False
  then have "has_frame self (int (Suc m) - 1) = Inr False"
    by (simp add: has_frame_eq [OF assms(1)])
  with False show ?thesis
    by (simp add: decode_frame_def)
qed

lemma decode_images_eq:
  assumes "reader_step self \<noteq> 0" and "reader_source_path self = x # xs"
    and "rotation_angle lib container packet = Inr angle"
  shows "decode_images lib self container packet images (int m) =
           (map (\<lambda>(k, p, img). (rotated lib angle img, x, frame_pts img))
              (filter (\<lambda>(k, p, img). reader_start self \<le> int k
                   \<and> (int k - reader_start self) mod reader_step self = 0
                   \<and> (case reader_stop self of None \<Rightarrow> True | Some stop \<Rightarrow> int k < stop))
                 (enumerate m (map (Pair packet) images))),
            Inr (int (m + length images)))"
proof (induction images arbitrary: m)
  case Nil
  show ?case by simp
next
  case (Cons img images)
  have "int m + 1 = int (Suc m)" by simp
  then show ?case
    using Cons [of "Suc m"]
    by (simp only: decode_images.simps Let_def decode_frame_eq [OF assms]) simp
qed

lemma decode_packets_eq:
  assumes "reader_step self \<noteq> 0" and "reader_source_path self = x # xs"
    and "\<forall>p \<in> set packets. stream_type (packet_stream p) = ''video''
           \<longrightarrow> rotation_angle lib container p = Inr (angle p)"
  shows "decode_packets lib self container packets (int m) =
           (map (\<lambda>(k, p, img). (rotated lib (angle p) img, x, frame_pts img))
              (filter (\<lambda>(k, p, img). reader_start self \<le> int k
                   \<and> (int k - reader_start self) mod reader_step self = 0
                   \<and> (case reader_stop self of None \<Rightarrow> True | Some stop \<Rightarrow> int k < stop))
                 (enumerate m
                    (concat (map (\<lambda>packet. map (Pair packet) (packet_decode packet))
                       (filter (\<lambda>packet. stream_type (packet_stream packet) = ''video'')
                          packets))))),
            None)"
  using assms(3)
proof (induction packets arbitrary: m)
  case Nil
  show ?case by simp
next
  case (Cons packet packets)
  from Cons.prems have rest: "\<forall>p \<in> set packets. stream_type (packet_stream p) = ''video''
           \<longrightarrow> rotation_angle lib container p = Inr (angle p)" by simp
  show ?case
  proof (cases "stream_type (packet_stream packet) = ''video''")
    case False
    with Cons.IH [OF rest, of m] show ?thesis by simp
  next
    case True
    with Cons.prems have ang: "rotation_angle lib container packet = Inr (angle packet)" by simp
    have same: "map (\<lambda>(k, p, img). (rotated lib (angle packet) img, x, frame_pts img))
            (filter P (enumerate m (map (Pair packet) (packet_decode packet))))
          = map (\<lambda>(k, p, img). (rotated lib (angle p) img, x, frame_pts img))
            (filter P (enumerate m (map (Pair packet) (packet_decode packet))))" for P
      by (rule map_cong) (auto simp: enumerate_eq_zip dest!: set_zip_rightD)
    show ?thesis
      using True Cons.IH [OF rest, of "m + length (packet_decode packet)"]
      by (simp add: decode_images_eq [OF assms(1,2) ang] enumerate_append_eq same)
  qed
qed


text \<open>
  C2. A \<^verbatim>\<open>VideoReader\<close> with parameters \<open>step\<close>, \<open>start\<close>, \<open>stop\<close> keeps
  \<open>stop + 1\<close> as its stop. For a step that is not zero (a zero step makes \<^verbatim>\<open>%\<close>
  raise), \<^verbatim>\<open>_has_frame(i)\<close> holds if and only if \<open>start \<le> i\<close>,
  \<open>(i - start) mod step = 0\<close> and \<open>stop\<close> is not given or \<open>i < stop + 1\<close>; and the
  generator yields, in order, exactly the decoded video frames whose zero-based position
  satisfies this condition.
\<close>

theorem video_frame_selection:
  assumes "step \<noteq> 0" and "sort source_path = x # xs"
    and "\<forall>p \<in> set (container_demux container). stream_type (packet_stream p) = ''video''
           \<longrightarrow> rotation_angle lib container p = Inr (angle p)"
  shows "reader_stop (VideoReader_init source_path step start stop)
           = (case stop of None \<Rightarrow> None | Some s \<Rightarrow> Some (s + 1))
       \<and> has_frame (VideoReader_init source_path step start stop) i
           = Inr (start \<le> i \<and> (i - start) mod step = 0
                  \<and> (case stop of None \<Rightarrow> True | Some s \<Rightarrow> i < s + 1))
       \<and> VideoReader_decode lib (VideoReader_init source_path step start stop) container
           = (map (\<lambda>(k, p, img). (rotated lib (angle p) img, x, frame_pts img))
                (filter (\<lambda>(k, p, img). start \<le> int k \<and> (int k - start) mod step = 0
                           \<and> (case stop of None \<Rightarrow> True | Some s \<Rightarrow> int k < s + 1))
                   (enumerate 0 (video_frames container))),
              None)"
proof -
  let ?self = "VideoReader_init source_path step start stop"
  have fields: "reader_step ?self = step" "reader_start ?self = start"
      "reader_source_path ?self = x # xs"
      "reader_stop ?self = (case stop of None \<Rightarrow> None | Some s \<Rightarrow> Some (s + 1))"
    using assms(2) by (simp_all add: VideoReader_init_def IMediaReader_init_def split: option.splits)
  have step: "reader_step ?self \<noteq> 0" using assms(1) fields by simp
  have stop: "(case reader_stop ?self of None \<Rightarrow> True | Some s \<Rightarrow> j < s)
                = (case stop of None \<Rightarrow> True | Some s \<Rightarrow> j < s + 1)" for j
    by (simp add: fields split: option.splits)
  have a: "has_frame ?self i
           = Inr (start \<le> i \<and> (i - start) mod step = 0
                  \<and> (case stop of None \<Rightarrow> True | Some s \<Rightarrow> i < s + 1))"
    by (simp only: has_frame_eq [OF step] stop) (simp add: fields)
  have "VideoReader_decode lib ?self container
           = (map (\<lambda>(k, p, img). (rotated lib (angle p) img, x, frame_pts img))
                (filter (\<lambda>(k, p, img). reader_start ?self \<le> int k
                           \<and> (int k - reader_start ?self) mod reader_step ?self = 0
                           \<and> (case reader_stop ?self of None \<Rightarrow> True | Some s \<Rightarrow> int k < s))
                   (enumerate 0 (video_frames container))),
              None)"
    using decode_packets_eq [OF step fields(3) assms(3), of 0]
    by (simp add: VideoReader_decode_def video_frames_def)
  then have b: "VideoReader_decode lib ?self container
           = (map (\<lambda>(k, p, img). (rotated lib (angle p) img, x, frame_pts img))
                (filter (\<lambda>(k, p, img). start \<le> int k \<and> (int k - start) mod step = 0
                           \<and> (case stop of None \<Rightarrow> True | Some s \<Rightarrow> int k < s + 1))
                   (enumerate 0 (video_frames container))),
              None)"
    by (simp only: stop fields(1,2))
  from fields(4) a b show ?thesis by blast
qed

text \<open>
  Where the video packets all belong to the first video stream of the container, and this
  stream declares a rotation that \<^verbatim>\<open>int\<close> reads as \<open>r\<close>, every frame the reader yields
  is the decoded frame turned into an array, passed to \<^verbatim>\<open>rotate_image\<close> with the angle
  \<open>360 - r\<close> and turned into a frame again, and the timestamp of the yielded frame, as
  well as the third component yielded with it, is the timestamp of the decoded frame.
\<close>

lemma rotation_single_stream:
  assumes "streams_video container = video0 # others"
    and "dict_get (stream_metadata video0) ''rotate'' = Some declared" and "declared \<noteq> []"
    and "parse_int lib declared = Some r"
    and "\<forall>p \<in> set (container_demux container). stream_type (packet_stream p) = ''video''
           \<longrightarrow> packet_stream p = video0"
    and "reader_step self \<noteq> 0" and "reader_source_path self = x # xs"
  shows "VideoReader_iter lib self container
           = (map (\<lambda>(k, p, img).
                     ((from_ndarray lib (rotate_image lib (to_ndarray lib img) (360 - r)))
                        \<lparr>frame_pts := frame_pts img\<rparr>,
                      x, frame_pts img))
                (filter (\<lambda>(k, p, img). has_frame self (int k) = Inr True)
                   (enumerate 0 (video_frames container))),
              None)"
proof -
  have ang: "\<forall>p \<in> set (container_demux container). stream_type (packet_stream p) = ''video''
           \<longrightarrow> rotation_angle lib container p = Inr ((\<lambda>_. Some (360 - r)) p)"
  proof (intro ballI impI)
    fix p assume "p \<in> set (container_demux container)"
      and "stream_type (packet_stream p) = ''video''"
    with assms(5) have "packet_stream p = video0" by blast
    with assms(1-4) show "rotation_angle lib container p = Inr (Some (360 - r))"
      by (simp add: rotation_angle_def)
  qed
  have sel: "(has_frame self (int k) = Inr True)
        = (reader_start self \<le> int k
                           \<and> (int k - reader_start self) mod reader_step self = 0
                           \<and> (case reader_stop self of None \<Rightarrow> True | Some s \<Rightarrow> int k < s))" for k
    by (simp add: has_frame_eq [OF assms(6)])
  show ?thesis
    using decode_packets_eq [OF assms(6,7) ang, of 0] assms(1,7)
    by (simp add: VideoReader_iter_def VideoReader_decode_def video_frames_def sel rotated_def)
qed


lemma sample_angles:
  "\<forall>p \<in> set (container_demux sample_container). stream_type (packet_stream p) = ''video''
      \<longrightarrow> rotation_angle sample_video_lib sample_container p = Inr ((\<lambda>_. Some 270) p)"
  by code_simp

lemma sample_sort_one: "sort [''v.mp4''] = ''v.mp4'' # []"
  by simp

theorem video_frame_selection_witness:
  "has_frame (VideoReader_init [''v.mp4''] 2 1 (Some 3)) 3 = Inr True
   \<and> has_frame (VideoReader_init [''v.mp4''] 2 1 (Some 3)) 4 = Inr False
   \<and> VideoReader_decode sample_video_lib (VideoReader_init [''v.mp4''] 2 1 (Some 3))
        sample_container
      = ([(\<lparr>frame_width = 1080, frame_height = 1922, frame_image = 270, frame_pts = Some 40,
              frame_time_base = None\<rparr>, ''v.mp4'', Some 40),
          (\<lparr>frame_width = 1080, frame_height = 1922, frame_image = 270, frame_pts = Some 120,
              frame_time_base = None\<rparr>, ''v.mp4'', Some 120)],
         None)"
proof -
  have step: "(2 :: int) \<noteq> 0" by simp
  note t = video_frame_selection [OF step sample_sort_one sample_angles,
      where start = 1 and stop = "Some 3"]
  have rhs: "map (\<lambda>(k, p, img). (rotated sample_video_lib ((\<lambda>_. Some 270) p) img, ''v.mp4'',
                                    frame_pts img))
                (filter (\<lambda>(k, p, img). 1 \<le> int k \<and> (int k - 1) mod 2 = 0
                           \<and> (case Some 3 of None \<Rightarrow> True | Some s \<Rightarrow> int k < s + 1))
                   (enumerate 0 (video_frames sample_container)))
      = [(\<lparr>frame_width = 1080, frame_height = 1922, frame_image = 270, frame_pts = Some 40,
              frame_time_base = None\<rparr>, ''v.mp4'', Some 40),
          (\<lparr>frame_width = 1080, frame_height = 1922, frame_image = 270, frame_pts = Some 120,
              frame_time_base = None\<rparr>, ''v.mp4'', Some 120)]"
    by code_simp
  from t [of 3] have a: "has_frame (VideoReader_init [''v.mp4''] 2 1 (Some 3)) 3 = Inr True"
    by simp
  from t [of 4] have b: "has_frame (VideoReader_init [''v.mp4''] 2 1 (Some 3)) 4 = Inr False"
    by simp
  from t [of 0] have c: "VideoReader_decode sample_video_lib
        (VideoReader_init [''v.mp4''] 2 1 (Some 3)) sample_container
      = ([(\<lparr>frame_width = 1080, frame_height = 1922, frame_image = 270, frame_pts = Some 40,
              frame_time_base = None\<rparr>, ''v.mp4'', Some 40),
          (\<lparr>frame_width = 1080, frame_height = 1922, frame_image = 270, frame_pts = Some 120,
              frame_time_base = None\<rparr>, ''v.mp4'', Some 120)],
         None)"
    unfolding rhs by blast
  from a b c show ?thesis by blast
qed


lemma rotation_single_stream_sample:
  "parse_int sample_video_lib ''90'' = Some 90
   \<and> VideoReader_iter sample_video_lib (VideoReader_init [''v.mp4''] 1 0 None) sample_container
      = ([(\<lparr>frame_width = 1080, frame_height = 1922, frame_image = 270, frame_pts = Some 0,
              frame_time_base = None\<rparr>, ''v.mp4'', Some 0),
          (\<lparr>frame_width = 1080, frame_height = 1922, frame_image = 270, frame_pts = Some 40,
              frame_time_base = None\<rparr>, ''v.mp4'', Some 40),
          (\<lparr>frame_width = 1080, frame_height = 1922, frame_image = 270, frame_pts = Some 80,
              frame_time_base = None\<rparr>, ''v.mp4'', Some 80),
          (\<lparr>frame_width = 1080, frame_height = 1922, frame_image = 270, frame_pts = Some 120,
              frame_time_base = None\<rparr>, ''v.mp4'', Some 120)],
         None)"
proof -
  have h1: "streams_video sample_container = rotated_stream # []" by code_simp
  have h2: "dict_get (stream_metadata rotated_stream) ''rotate'' = Some ''90''" by code_simp
  have h3: "''90'' \<noteq> []" by simp
  have h4: "parse_int sample_video_lib ''90'' = Some 90" by code_simp
  have h5: "\<forall>p \<in> set (container_demux sample_container).
              stream_type (packet_stream p) = ''video'' \<longrightarrow> packet_stream p = rotated_stream"
    by code_simp
  have h6: "reader_step (VideoReader_init [''v.mp4''] 1 0 None) \<noteq> 0"
    by (simp add: VideoReader_init_def IMediaReader_init_def)
  have h7: "reader_source_path (VideoReader_init [''v.mp4''] 1 0 None) = ''v.mp4'' # []"
    by (simp add: VideoReader_init_def IMediaReader_init_def)
  have rhs: "map (\<lambda>(k, p, img).
                     ((from_ndarray sample_video_lib
                         (rotate_image sample_video_lib (to_ndarray sample_video_lib img) (360 - 90)))
                        \<lparr>frame_pts := frame_pts img\<rparr>,
                      ''v.mp4'', frame_pts img))
                (filter (\<lambda>(k, p, img).
                     has_frame (VideoReader_init [''v.mp4''] 1 0 None) (int k) = Inr True)
                   (enumerate 0 (video_frames sample_container)))
      = [(\<lparr>frame_width = 1080, frame_height = 1922, frame_image = 270, frame_pts = Some 0,
              frame_time_base = None\<rparr>, ''v.mp4'', Some 0),
          (\<lparr>frame_width = 1080, frame_height = 1922, frame_image = 270, frame_pts = Some 40,
              frame_time_base = None\<rparr>, ''v.mp4'', Some 40),
          (\<lparr>frame_width = 1080, frame_height = 1922, frame_image = 270, frame_pts = Some 80,
              frame_time_base = None\<rparr>, ''v.mp4'', Some 80),
          (\<lparr>frame_width = 1080, frame_height = 1922, frame_image = 270, frame_pts = Some 120,
              frame_time_base = None\<rparr>, ''v.mp4'', Some 120)]"
    by code_simp
  from rotation_single_stream [OF h1 h2 h3 h4 h5 h6 h7] h4 show ?thesis
    unfolding rhs by blast
qed


text \<open>
  C3, which the code does not meet. \<^verbatim>\<open>_decode\<close> tests the rotation tag of the stream of
  the packet, but reads the angle from the first video stream of the container, and it
  decodes the packets of every video stream. In a container whose first video stream
  declares 90 degrees and whose second declares 180, the frame of the second stream is
  yielded rotated by \<open>360 - 90 = 270\<close> degrees, without an error, where the claim asks for
  \<open>360 - 180 = 180\<close>. Its timestamp is the one of the decoded frame.
\<close>

theorem rotation_second_stream:
  "VideoReader_iter sample_video_lib (VideoReader_init [''v.mp4''] 1 0 None) two_stream_container
     = ([(\<lparr>frame_width = 1080, frame_height = 1922, frame_image = 270, frame_pts = Some 0,
             frame_time_base = None\<rparr>, ''v.mp4'', Some 0),
         (\<lparr>frame_width = 1080, frame_height = 1922, frame_image = 270, frame_pts = Some 40,
             frame_time_base = None\<rparr>, ''v.mp4'', Some 40)],
        None)
   \<and> dict_get (stream_metadata upside_down_stream) ''rotate'' = Some ''180''
   \<and> parse_int sample_video_lib ''180'' = Some 180
   \<and> rotate_image sample_video_lib (to_ndarray sample_video_lib (decoded_frame 40)) (360 - 180)
       = 180"
  by code_simp


section \<open>Properties of the dimension validation\<close>

text \<open>
  No step of the walk assigns \<^verbatim>\<open>self.dimension\<close>: every loop and every method called
  for a directory leaves it as it was.
\<close>

lemma related_append_dimension:
  "related_append self key v = Inr self' \<Longrightarrow> dimension self' = dimension self"
  by (auto simp: related_append_def split: option.splits)

lemma bin_operation_dimension:
  "bin_operation env (self, w) file_path actual_path = Inr (self', w', p)
     \<Longrightarrow> dimension self' = dimension self"
  by (auto simp: bin_operation_def Let_def split: sum.splits prod.splits)

lemma process_files_dimension:
  "process_files env (self, w) root_dir actual_path files pcd_files = Inr (self', w', pcd_files')
     \<Longrightarrow> dimension self' = dimension self"
proof (induction files arbitrary: self w pcd_files)
  case Nil
  then show ?case by simp
next
  case (Cons f fs)
  from Cons.prems obtain file_name file_extension
    where split: "rsplit_once CHR ''.'' f = Some (file_name, file_extension)"
    by (cases "rsplit_once CHR ''.'' f") auto
  let ?file_path = "os_path_abspath env (os_path_join root_dir f)"
  show ?case
  proof (cases "file_extension = ''bin''")
    case True
    with Cons.prems split obtain s1 w1 p where
      b: "bin_operation env (self, w) ?file_path actual_path = Inr (s1, w1, p)"
      and r: "process_files env (s1\<lparr>related_files := dict_set (related_files s1) p []\<rparr>, w1)
                root_dir actual_path fs (dict_set pcd_files file_name p) = Inr (self', w', pcd_files')"
      by (auto simp: Let_def split: sum.splits)
    from Cons.IH [OF r] bin_operation_dimension [OF b] show ?thesis by simp
  next
    case False
    note not_bin = False
    show ?thesis
    proof (cases "file_extension = ''pcd''")
      case True
      with Cons.prems split not_bin obtain p where
        op: "pcd_operation env w ?file_path actual_path = Inr p"
        by (auto simp: Let_def split: sum.splits)
      show ?thesis
      proof (cases "p = ?file_path")
        case True
        with Cons.prems split not_bin \<open>file_extension = ''pcd''\<close> op have
          "process_files env
             (self\<lparr>image_files := dict_set (image_files self) file_name ?file_path\<rparr>, w)
             root_dir actual_path fs pcd_files = Inr (self', w', pcd_files')"
          by (simp add: Let_def)
        from Cons.IH [OF this] show ?thesis by simp
      next
        case False
        with Cons.prems split not_bin \<open>file_extension = ''pcd''\<close> op have
          "process_files env
             (self\<lparr>related_files := dict_set (related_files self) p []\<rparr>, w)
             root_dir actual_path fs (dict_set pcd_files file_name p) = Inr (self', w', pcd_files')"
          by (simp add: Let_def)
        from Cons.IH [OF this] show ?thesis by simp
      qed
    next
      case False
      with Cons.prems split not_bin have
        "process_files env
           (self\<lparr>image_files := dict_set (image_files self) file_name ?file_path\<rparr>, w)
           root_dir actual_path fs pcd_files = Inr (self', w', pcd_files')"
        by (simp add: Let_def)
      from Cons.IH [OF this] show ?thesis by simp
    qed
  qed
qed

lemma velodyne_files_loop_dimension:
  "velodyne_files_loop env velodyne_files data_dir self files = Inr self'
     \<Longrightarrow> dimension self' = dimension self"
proof (induction files arbitrary: self)
  case Nil
  then show ?case by simp
next
  case (Cons f fs)
  then show ?case
    by (auto simp: Let_def split: option.splits if_splits sum.splits
        dest!: related_append_dimension)
qed

lemma velodyne_paths_loop_dimension:
  "velodyne_paths_loop env w velodyne_files related_path self path_list = Inr self'
     \<Longrightarrow> dimension self' = dimension self"
proof (induction path_list arbitrary: self)
  case Nil
  then show ?case by simp
next
  case (Cons m ms)
  then show ?case
    by (cases m)
      (auto simp: Let_def split: sum.splits dest!: velodyne_files_loop_dimension)
qed

lemma validate_velodyne_points_dimension:
  "validate_velodyne_points env (self, w) root_dir actual_path files = Inr (self', w')
     \<Longrightarrow> dimension self' = dimension self"
  by (auto simp: validate_velodyne_points_def Let_def split: sum.splits
      dest!: process_files_dimension velodyne_paths_loop_dimension)

lemma pointcloud_images_loop_dimension:
  "pointcloud_images_loop pointcloud_files k file_path self files = Inr self'
     \<Longrightarrow> dimension self' = dimension self"
proof (induction files arbitrary: self)
  case Nil
  then show ?case by simp
next
  case (Cons f fs)
  then show ?case
    by (auto split: option.splits sum.splits dest!: related_append_dimension)
qed

lemma pointcloud_paths_loop_dimension:
  "pointcloud_paths_loop env w pointcloud_files related_images_path k self paths = Inr self'
     \<Longrightarrow> dimension self' = dimension self"
proof (induction paths arbitrary: self)
  case Nil
  then show ?case by simp
next
  case (Cons p ps)
  then show ?case
    by (auto simp: Let_def split: if_splits sum.splits dest!: pointcloud_images_loop_dimension)
qed

lemma pointcloud_keys_loop_dimension:
  "pointcloud_keys_loop env w pointcloud_files related_images_path paths self keys = Inr self'
     \<Longrightarrow> dimension self' = dimension self"
proof (induction keys arbitrary: self)
  case Nil
  then show ?case by simp
next
  case (Cons k ks)
  then show ?case
    by (auto split: sum.splits dest!: pointcloud_paths_loop_dimension)
qed

lemma validate_pointcloud_dimension:
  "validate_pointcloud env (self, w) root_dir actual_path files = Inr (self', w')
     \<Longrightarrow> dimension self' = dimension self"
  by (auto simp: validate_pointcloud_def Let_def split: sum.splits if_splits
      dest!: process_files_dimension pointcloud_keys_loop_dimension)

lemma default_stem_loop_dimension:
  "default_stem_loop pcd_files self images = Inr self'
     \<Longrightarrow> dimension self' = dimension self"
proof (induction images arbitrary: self)
  case Nil
  then show ?case by simp
next
  case (Cons i rest)
  then show ?case
    by (cases i) (auto split: option.splits if_splits sum.splits dest!: related_append_dimension)
qed

lemma default_directory_loop_dimension:
  "default_directory_loop pcd_files pcd_name root_dir self images = Inr self'
     \<Longrightarrow> dimension self' = dimension self"
proof (induction images arbitrary: self)
  case Nil
  then show ?case by simp
next
  case (Cons i rest)
  then show ?case
    by (auto split: option.splits if_splits sum.splits dest!: related_append_dimension)
qed

lemma validate_default_dimension:
  "validate_default env (self, w) root_dir actual_path files = Inr (self', w')
     \<Longrightarrow> dimension self' = dimension self"
  by (auto simp: validate_default_def Let_def split: sum.splits if_splits
      dest!: process_files_dimension default_stem_loop_dimension default_directory_loop_dimension)

lemma validate_walk_dimension:
  "validate_walk env actual_path (self, w) walk = Inr (self', w')
     \<Longrightarrow> dimension self' = dimension self"
proof (induction walk arbitrary: self w)
  case Nil
  then show ?case by simp
next
  case (Cons d ds)
  obtain root_dir dirs files where d: "d = (root_dir, dirs, files)" by (cases d)
  from Cons.prems d obtain s1 w1 where
    step: "(if endswith root_dir ''data'' then
              (if snd (os_path_split (fst (os_path_split root_dir))) = ''velodyne_points''
               then validate_velodyne_points env (self, w) root_dir actual_path files
               else Inr (self, w))
            else if snd (os_path_split root_dir) = ''pointcloud''
            then validate_pointcloud env (self, w) root_dir actual_path files
            else validate_default env (self, w) root_dir actual_path files) = Inr (s1, w1)"
    and rest: "validate_walk env actual_path (s1, w1) ds = Inr (self', w')"
    by (auto split: sum.splits)
  from step have "dimension s1 = dimension self"
    by (auto split: if_splits dest!: validate_velodyne_points_dimension
        validate_pointcloud_dimension validate_default_dimension)
  with Cons.IH [OF rest] show ?case by simp
qed


text \<open>
  C9. Let \<^verbatim>\<open>validate()\<close> be called on a validator whose dimension has its initial value
  2D and whose path is set, so that the tree is walked, and let it return. Then the
  dimension is 3D if and only if \<^verbatim>\<open>related_files\<close> is not empty, and 2D if and only if
  it is empty.
\<close>

theorem validate_dimension:
  assumes "validate env (self, w) = Inr (self', w')"
    and "dimension self = DIM_2D"
    and "path self = Some actual_path" and "actual_path \<noteq> []"
  shows "(dimension self' = DIM_3D \<longleftrightarrow> related_files self' \<noteq> [])
       \<and> (dimension self' = DIM_2D \<longleftrightarrow> related_files self' = [])"
proof -
  from assms(1,3,4) obtain s1 where
    walk: "validate_walk env actual_path (self, w) (os_walk env w actual_path) = Inr (s1, w')"
    and final: "self' = (if related_files s1 \<noteq> [] then s1\<lparr>dimension := DIM_3D\<rparr> else s1)"
    by (auto simp: validate_def split: sum.splits if_splits)
  from validate_walk_dimension [OF walk] assms(2) have "dimension s1 = DIM_2D" by simp
  with final show ?thesis by auto
qed

lemma sample_validate:
  "validate sample_env (ValidateDimension_init (Some ''/ds''), ())
     = Inr (\<lparr>dimension = DIM_3D, path = Some ''/ds'',
             related_files = [(''c.pcd'', [''/ds/c.jpg''])],
             image_files = [(''c'', ''/ds/c.jpg'')], converted_files = []\<rparr>, ())"
  by code_simp

theorem validate_dimension_witness:
  "validate sample_env (ValidateDimension_init (Some ''/ds''), ())
     = Inr (\<lparr>dimension = DIM_3D, path = Some ''/ds'',
             related_files = [(''c.pcd'', [''/ds/c.jpg''])],
             image_files = [(''c'', ''/ds/c.jpg'')], converted_files = []\<rparr>, ())
   \<and> dimension (ValidateDimension_init (Some ''/ds'')) = DIM_2D
   \<and> path (ValidateDimension_init (Some ''/ds'')) = Some ''/ds''
   \<and> ((DIM_3D = DIM_3D) = ([(''c.pcd'', [''/ds/c.jpg''])] \<noteq> ([] :: (string \<times> string list) list)))"
proof -
  have h2: "dimension (ValidateDimension_init (Some ''/ds'')) = DIM_2D"
    by (simp add: ValidateDimension_init_def)
  have h3: "path (ValidateDimension_init (Some ''/ds'')) = Some ''/ds''"
    by (simp add: ValidateDimension_init_def)
  have h4: "''/ds'' \<noteq> []" by simp
  from validate_dimension [OF sample_validate h2 h3 h4]
  have "(DIM_3D = DIM_3D) = ([(''c.pcd'', [''/ds/c.jpg''])] \<noteq> ([] :: (string \<times> string list) list))"
    by simp
  with sample_validate h2 h3 show ?thesis by blast
qed


end
